theory Spec2Isabelle
  imports Complex_Main
begin

section \<open>Smart Suspender: the background service worker\<close>

text \<open>
  A shallow embedding of the background script of the extension: the whitelist matcher,
  the eligibility policy, the suspend and unsuspend transitions, the tab lifecycle
  listeners, the message handlers for suspension, the settings store and the inactivity
  scan with its single alarm.

  JavaScript strings are \<^typ>\<open>string\<close>, a character being a code unit below 256
  (strings with other characters are outside the model); numbers (minutes, millisecond
  timestamps) are exact, of type \<^typ>\<open>rat\<close>, where the script computes with doubles:
  the two agree on whole numbers of minutes and milliseconds, and \<open>NaN\<close> does not occur;
  \<open>Infinity\<close> is written as \<open>None\<close> where the script uses it; tab ids
  are \<^typ>\<open>int\<close>, the id \<open>0\<close> standing for a falsy \<open>tab.id\<close>. An object literal
  sent as a response is an association list from keys to values. The settings in force
  are typed (flags, a number, a string); what storage holds may lack any field and may
  have any value as its timeout.

  An \<open>async\<close> function becomes a function from the world before to an answer and the
  world after, and the clock stands still while it runs. The tab operations run to their
  end before the next handler starts. The inactivity scan does not: it stops where it
  waits for \<open>chrome.tabs.query\<close>, other handlers run, among them further calls of
  \<open>runInactivityScan\<close>, and it goes on when the answer comes. Every call to the browser
  is written to the log \<open>calls\<close>, and an exception is a value: the message it carries.
\<close>

subsection \<open>Values and responses\<close>

datatype jsval = JNull | JBool bool | JNum rat | JStr string

type_synonym response = "(string \<times> jsval) list"

definition is_number :: "jsval \<Rightarrow> bool" where
  \<comment> \<open>\<open>typeof v === "number"\<close>\<close>
  "is_number v = (case v of JNum _ \<Rightarrow> True | _ \<Rightarrow> False)"

definition num_of :: "jsval \<Rightarrow> rat" where
  "num_of v = (case v of JNum r \<Rightarrow> r | _ \<Rightarrow> 0)"

definition field :: "response \<Rightarrow> string \<Rightarrow> jsval option" where
  \<comment> \<open>\<open>response.key\<close>; \<open>None\<close> is \<open>undefined\<close>\<close>
  "field r k = map_of r k"

definition truthy_field :: "response \<Rightarrow> string \<Rightarrow> bool" where
  \<comment> \<open>\<open>response?.key\<close> used as a condition, as the popup does\<close>
  "truthy_field r k =
     (case map_of r k of
        None \<Rightarrow> False
      | Some JNull \<Rightarrow> False
      | Some (JBool b) \<Rightarrow> b
      | Some (JNum n) \<Rightarrow> n \<noteq> 0
      | Some (JStr s) \<Rightarrow> s \<noteq> [])"

subsection \<open>Settings\<close>

record settings =
  autoSuspend :: bool
  autoSuspendTime :: rat
  ignorePinned :: bool
  ignoreAudio :: bool
  ignoreActive :: bool
  urlWhitelist :: string

definition DEFAULT_SETTINGS :: settings where
  "DEFAULT_SETTINGS =
     \<lparr>autoSuspend = True, autoSuspendTime = 30, ignorePinned = True,
      ignoreAudio = True, ignoreActive = True, urlWhitelist = []\<rparr>"

subsection \<open>Whitelist patterns\<close>

definition LF :: char where "LF = CHR 0x0A"
definition CR :: char where "CR = CHR 0x0D"

definition is_space :: "char \<Rightarrow> bool" where
  \<comment> \<open>the characters below 256 that \<open>String.prototype.trim\<close> removes: tab, line feed,
      vertical tab, form feed, carriage return, space and no-break space\<close>
  "is_space c =
     (c \<in> set [CHR '' '', CHR 0x09, CHR 0x0A, CHR 0x0B, CHR 0x0C, CHR 0x0D, CHR 0xA0])"

definition trim :: "string \<Rightarrow> string" where
  "trim s = rev (dropWhile is_space (rev (dropWhile is_space s)))"

text \<open>\<open>str.split(/\r?\n|,/)\<close>: the first argument is the piece read so far.\<close>

fun split_entries :: "string \<Rightarrow> string \<Rightarrow> string list" where
  "split_entries cur [] = [cur]"
| "split_entries cur [c] =
     (if c = LF \<or> c = CHR '','' then [cur, []] else [cur @ [c]])"
| "split_entries cur (c # d # cs) =
     (if c = CR \<and> d = LF then cur # split_entries [] cs
      else if c = LF \<or> c = CHR '','' then cur # split_entries [] (d # cs)
      else split_entries (cur @ [c]) (d # cs))"

definition whitelistEntries :: "settings \<Rightarrow> string list" where
  "whitelistEntries s =
     filter (\<lambda>e. e \<noteq> []) (map trim (split_entries [] (urlWhitelist s)))"

text \<open>\<open>pattern.split("*")\<close>\<close>

fun split_star :: "string \<Rightarrow> string \<Rightarrow> string list" where
  "split_star cur [] = [cur]"
| "split_star cur (c # cs) =
     (if c = CHR ''*'' then cur # split_star [] cs else split_star (cur @ [c]) cs)"

definition backslash :: char where "backslash = CHR 0x5C"

definition escape_class :: "char \<Rightarrow> bool" where
  \<comment> \<open>the character class \<open>[.*+?^${}()|[\\]\<close> that opens the escaping expression\<close>
  "escape_class c =
     (c \<in> set [CHR ''.'', CHR ''*'', CHR ''+'', CHR ''?'', CHR ''^'', CHR ''$'', CHR ''{'',
                CHR ''}'', CHR ''('', CHR '')'', CHR ''|'', CHR ''['', backslash])"

text \<open>
  \<open>s.replace(/[.*+?^${}()|[\\]\\]/g, (r) => "\\" + r)\<close>. The class closes at the first
  \<open>]\<close>; what follows it, \<open>\\]\<close>, is a literal backslash and a literal \<open>]\<close>. So the
  expression matches three characters, one of the class and then \<open>\]\<close>, and a match is
  replaced by a backslash and the three characters.
\<close>

fun escape_piece :: "string \<Rightarrow> string" where
  "escape_piece (c # b # r # cs) =
     (if escape_class c \<and> b = backslash \<and> r = CHR '']''
      then backslash # c # b # r # escape_piece cs
      else c # escape_piece (b # r # cs))"
| "escape_piece cs = cs"

fun join_dotstar :: "string list \<Rightarrow> string" where
  "join_dotstar [] = []"
| "join_dotstar [p] = p"
| "join_dotstar (p # q # ps) = p @ ''.*'' @ join_dotstar (q # ps)"

definition pattern_source :: "string \<Rightarrow> string" where
  \<comment> \<open>the source text handed to \<open>new RegExp\<close>\<close>
  "pattern_source pattern =
     ''^'' @ join_dotstar (map escape_piece (split_star [] pattern)) @ ''$''"

text \<open>
  \<open>RegExp\<close> is the host's. The script's functions take the engine as a parameter
  \<open>rx source input\<close>, \<open>None\<close> when the constructor throws; what they are proved to do,
  they do with any engine. \<open>regexp_test\<close> below is the engine on the sources that
  consist of \<open>^\<close>, then ordinary characters and \<open>.\<close>, each with at most one of the
  quantifiers \<open>*\<close>, \<open>+\<close> and \<open>?\<close> behind it, greedy or lazy, then \<open>$\<close>. On any
  other source it gives \<open>None\<close>, which there does not say that the constructor throws:
  groups, classes, alternatives and escapes are not modelled, and the statements made
  with \<open>regexp_test\<close> are about sources on which it answers.
\<close>

datatype atom = Lit char | AnyChar

datatype quant = Once | Star | Plus | Opt

definition line_terminator :: "char \<Rightarrow> bool" where
  "line_terminator c = (c = LF \<or> c = CR)"

definition metachar :: "char \<Rightarrow> bool" where
  "metachar c = (escape_class c \<or> c = CHR '']'')"

definition parse_atom :: "char \<Rightarrow> atom option" where
  "parse_atom c =
     (if c = CHR ''.'' then Some AnyChar else if metachar c then None else Some (Lit c))"

definition parse_quant :: "char \<Rightarrow> quant option" where
  "parse_quant c =
     (if c = CHR ''*'' then Some Star
      else if c = CHR ''+'' then Some Plus
      else if c = CHR ''?'' then Some Opt
      else None)"

fun drop_lazy :: "string \<Rightarrow> string" where
  \<comment> \<open>a \<open>?\<close> behind a quantifier makes it lazy, which does not change what \<open>test\<close> answers\<close>
  "drop_lazy [] = []"
| "drop_lazy (c # cs) = (if c = CHR ''?'' then cs else c # cs)"

function re_parse :: "string \<Rightarrow> (atom \<times> quant) list option" where
  "re_parse [] = Some []"
| "re_parse [c] = map_option (\<lambda>a. [(a, Once)]) (parse_atom c)"
| "re_parse (c # d # cs) =
     (case parse_atom c of
        None \<Rightarrow> None
      | Some a \<Rightarrow>
          (case parse_quant d of
             Some q \<Rightarrow> map_option ((#) (a, q)) (re_parse (drop_lazy cs))
           | None \<Rightarrow> map_option ((#) (a, Once)) (re_parse (d # cs))))"
  by pat_completeness auto
termination
proof (relation "measure length")
  fix c d :: char and cs :: string
  show "(drop_lazy cs, c # d # cs) \<in> measure length"
    by (cases cs) simp_all
qed simp_all

fun atom_matches :: "atom \<Rightarrow> char \<Rightarrow> bool" where
  "atom_matches (Lit c) x = (x = c)"
| "atom_matches AnyChar x = (\<not> line_terminator x)"

text \<open>Whether the items match the whole of the input (the source is anchored at both ends).\<close>

fun re_match :: "(atom \<times> quant) list \<Rightarrow> string \<Rightarrow> bool" where
  "re_match [] s = (s = [])"
| "re_match ((a, Once) # ts) [] = False"
| "re_match ((a, Once) # ts) (x # xs) = (atom_matches a x \<and> re_match ts xs)"
| "re_match ((a, Opt) # ts) [] = re_match ts []"
| "re_match ((a, Opt) # ts) (x # xs) =
     (re_match ts (x # xs) \<or> (atom_matches a x \<and> re_match ts xs))"
| "re_match ((a, Star) # ts) [] = re_match ts []"
| "re_match ((a, Star) # ts) (x # xs) =
     (re_match ts (x # xs) \<or> (atom_matches a x \<and> re_match ((a, Star) # ts) xs))"
| "re_match ((a, Plus) # ts) [] = False"
| "re_match ((a, Plus) # ts) (x # xs) = (atom_matches a x \<and> re_match ((a, Star) # ts) xs)"

definition regexp_test :: "string \<Rightarrow> string \<Rightarrow> bool option" where
  "regexp_test src s =
     (case src of
        [] \<Rightarrow> None
      | c # cs \<Rightarrow>
          if c \<noteq> CHR ''^'' \<or> cs = [] \<or> last cs \<noteq> CHR ''$'' then None
          else map_option (\<lambda>ts. re_match ts s) (re_parse (butlast cs)))"

text \<open>
  The matching the specification describes, for comparison: \<open>*\<close> stands for any sequence
  of characters, every other character for itself, and the pattern has to cover the
  whole address.
\<close>

fun glob_match :: "string \<Rightarrow> string \<Rightarrow> bool" where
  "glob_match [] s = (s = [])"
| "glob_match (p # ps) [] = (p = CHR ''*'' \<and> glob_match ps [])"
| "glob_match (p # ps) (x # xs) =
     (if p = CHR ''*'' then glob_match ps (x # xs) \<or> glob_match (p # ps) xs
      else p = x \<and> glob_match ps xs)"

text \<open>\<open>wl.some(...)\<close>: patterns in order, stopping at the first that matches or throws.\<close>

fun some_pattern :: "(string \<Rightarrow> string \<Rightarrow> bool option) \<Rightarrow> string list \<Rightarrow> string \<Rightarrow> bool option" where
  "some_pattern rx [] u = Some False"
| "some_pattern rx (p # ps) u =
     (if p = ''*'' then Some True
      else case rx (pattern_source p) u of
             None \<Rightarrow> None
           | Some True \<Rightarrow> Some True
           | Some False \<Rightarrow> some_pattern rx ps u)"

text \<open>The pattern at which \<open>wl.some(...)\<close> throws, if it does.\<close>

fun throwing_pattern ::
  "(string \<Rightarrow> string \<Rightarrow> bool option) \<Rightarrow> string list \<Rightarrow> string \<Rightarrow> string option" where
  "throwing_pattern rx [] u = None"
| "throwing_pattern rx (p # ps) u =
     (if p = ''*'' then None
      else case rx (pattern_source p) u of
             None \<Rightarrow> Some p
           | Some True \<Rightarrow> None
           | Some False \<Rightarrow> throwing_pattern rx ps u)"

definition isWhitelisted :: "(string \<Rightarrow> string \<Rightarrow> bool option) \<Rightarrow> settings \<Rightarrow> string \<Rightarrow> bool option" where
  "isWhitelisted rx s u =
     (let wl = whitelistEntries s in if wl = [] then Some False else some_pattern rx wl u)"

subsection \<open>Tabs, records and the host\<close>

record tab =
  tab_id :: int
  url :: string
  title :: string
  favIconUrl :: "string option"
  windowId :: int
  index :: int
  pinned :: bool
  audible :: bool
  active :: bool
  groupId :: int
  lastAccessed :: rat

datatype reason = Manual | Auto

datatype strategy = Replace | Navigate

record tabRecord =
  rec_url :: string
  rec_title :: string
  rec_favicon :: "string option"
  rec_suspendedAt :: rat
  rec_reason :: reason
  rec_originalTabId :: int
  rec_windowId :: int
  rec_index :: int
  rec_pinned :: bool
  rec_wasActive :: bool
  rec_strategy :: "strategy option"
  rec_placeholderTabId :: "int option"

datatype storage_key = SUSPENDED_TABS | SETTINGS

text \<open>The calls the script makes to the browser, as they are logged and as they may fail.\<close>

datatype hostcall =
    TabsGet int
  | TabsQuery
  | TabsQueryActive
  | TabsCreate int int
  | TabsMove int int
  | TabsGroup int int
  | TabsRemove int
  | TabsUpdate int string
  | StorageGet storage_key
  | StorageSet storage_key
  | AlarmsClear
  | AlarmsCreate rat

text \<open>
  What the browser contributes to a run: its regular-expression engine, the message of
  the exception that \<open>new RegExp\<close> throws on a source, the extension's id, and \<open>fails\<close>, which says for each call whether it throws and with what message.
  A call on a tab that does not exist throws as well.
\<close>

record host =
  regexp :: "string \<Rightarrow> string \<Rightarrow> bool option"
  regexp_message :: "string \<Rightarrow> string"
  extensionId :: string
  fails :: "hostcall \<Rightarrow> string option"

text \<open>What is kept in storage under the settings key: any field may be missing, and the
  timeout may be any value.\<close>

record storedSettings =
  st_autoSuspend :: "bool option"
  st_autoSuspendTime :: "jsval option"
  st_ignorePinned :: "bool option"
  st_ignoreAudio :: "bool option"
  st_ignoreActive :: "bool option"
  st_urlWhitelist :: "string option"

text \<open>A partial settings object, as \<open>saveSettings\<close> receives it.\<close>

record partialSettings =
  p_autoSuspend :: "bool option"
  p_autoSuspendTime :: "rat option"
  p_ignorePinned :: "bool option"
  p_ignoreAudio :: "bool option"
  p_ignoreActive :: "bool option"
  p_urlWhitelist :: "string option"

text \<open>
  The script's module variables (\<open>currentSettings\<close>, \<open>suspendedTabsCache\<close>,
  \<open>lastActivityMap\<close>) and the browser's state: the live tabs in the order the browser
  lists them, the window that has the focus, the two storage entries, the pending alarm,
  the clock read by \<open>Date.now()\<close>, and the calls made so far.
\<close>

record world =
  currentSettings :: settings
  suspendedTabsCache :: "int \<rightharpoonup> tabRecord"
  lastActivityMap :: "int \<rightharpoonup> rat"
  tabs :: "tab list"
  currentWindow :: int
  storedSettings :: "storedSettings option"
  storedTabs :: "int \<rightharpoonup> tabRecord"
  alarm :: "rat option"
  clock :: rat
  calls :: "hostcall list"

definition record_call :: "hostcall \<Rightarrow> world \<Rightarrow> world" where
  "record_call c w = w\<lparr>calls := calls w @ [c]\<rparr>"

definition find_tab :: "world \<Rightarrow> int \<Rightarrow> tab option" where
  "find_tab w i = find (\<lambda>t. tab_id t = i) (tabs w)"

definition no_tab :: string where
  "no_tab = ''No tab with id''"

definition chrome_tabs_get :: "host \<Rightarrow> int \<Rightarrow> world \<Rightarrow> (string + tab) \<times> world" where
  "chrome_tabs_get h i w =
     (case fails h (TabsGet i) of
        Some m \<Rightarrow> (Inl m, record_call (TabsGet i) w)
      | None \<Rightarrow>
          (case find_tab w i of
             None \<Rightarrow> (Inl no_tab, record_call (TabsGet i) w)
           | Some t \<Rightarrow> (Inr t, record_call (TabsGet i) w)))"

definition chrome_tabs_query :: "host \<Rightarrow> world \<Rightarrow> (string + tab list) \<times> world" where
  \<comment> \<open>\<open>chrome.tabs.query({})\<close>\<close>
  "chrome_tabs_query h w =
     (case fails h TabsQuery of
        Some m \<Rightarrow> (Inl m, record_call TabsQuery w)
      | None \<Rightarrow> (Inr (tabs w), record_call TabsQuery w))"

definition chrome_tabs_query_active :: "host \<Rightarrow> world \<Rightarrow> (string + tab list) \<times> world" where
  \<comment> \<open>\<open>chrome.tabs.query({active: true, currentWindow: true})\<close>\<close>
  "chrome_tabs_query_active h w =
     (case fails h TabsQueryActive of
        Some m \<Rightarrow> (Inl m, record_call TabsQueryActive w)
      | None \<Rightarrow>
          (Inr (filter (\<lambda>t. active t \<and> windowId t = currentWindow w) (tabs w)),
           record_call TabsQueryActive w))"

definition fresh_tab_id :: "world \<Rightarrow> int" where
  \<comment> \<open>the browser gives a new tab a positive id that no live tab has\<close>
  "fresh_tab_id w = 1 + foldr max (map tab_id (tabs w)) 0"

text \<open>
  \<open>chrome.tabs.create\<close> adds the new tab at the end of the browser's list. What the
  browser does to the other tabs (renumbering their positions, moving the focus) is left
  out.
\<close>

definition chrome_tabs_create ::
  "host \<Rightarrow> int \<Rightarrow> int \<Rightarrow> bool \<Rightarrow> bool \<Rightarrow> string \<Rightarrow> world \<Rightarrow> (string + tab) \<times> world" where
  "chrome_tabs_create h win idx act pin u w =
     (case fails h (TabsCreate win idx) of
        Some m \<Rightarrow> (Inl m, record_call (TabsCreate win idx) w)
      | None \<Rightarrow>
          (let t = \<lparr>tab_id = fresh_tab_id w, url = u, title = [], favIconUrl = None,
                    windowId = win, index = idx, pinned = pin, audible = False,
                    active = act, groupId = - 1, lastAccessed = clock w\<rparr>
           in (Inr t, record_call (TabsCreate win idx) (w\<lparr>tabs := tabs w @ [t]\<rparr>))))"

definition change_tab :: "int \<Rightarrow> (tab \<Rightarrow> tab) \<Rightarrow> world \<Rightarrow> world" where
  "change_tab i f w = w\<lparr>tabs := map (\<lambda>t. if tab_id t = i then f t else t) (tabs w)\<rparr>"

definition tab_call_error :: "host \<Rightarrow> hostcall \<Rightarrow> int \<Rightarrow> world \<Rightarrow> string option" where
  \<comment> \<open>the message with which a call on the tab \<open>i\<close> throws, if it does\<close>
  "tab_call_error h c i w =
     (case fails h c of
        Some m \<Rightarrow> Some m
      | None \<Rightarrow> (case find_tab w i of None \<Rightarrow> Some no_tab | Some t \<Rightarrow> None))"

definition chrome_tabs_move :: "host \<Rightarrow> int \<Rightarrow> int \<Rightarrow> world \<Rightarrow> string option \<times> world" where
  "chrome_tabs_move h i idx w =
     (case tab_call_error h (TabsMove i idx) i w of
        Some m \<Rightarrow> (Some m, record_call (TabsMove i idx) w)
      | None \<Rightarrow> (None, record_call (TabsMove i idx) (change_tab i (\<lambda>t. t\<lparr>index := idx\<rparr>) w)))"

definition chrome_tabs_group :: "host \<Rightarrow> int \<Rightarrow> int \<Rightarrow> world \<Rightarrow> string option \<times> world" where
  "chrome_tabs_group h i g w =
     (case tab_call_error h (TabsGroup i g) i w of
        Some m \<Rightarrow> (Some m, record_call (TabsGroup i g) w)
      | None \<Rightarrow> (None, record_call (TabsGroup i g) (change_tab i (\<lambda>t. t\<lparr>groupId := g\<rparr>) w)))"

definition chrome_tabs_remove :: "host \<Rightarrow> int \<Rightarrow> world \<Rightarrow> string option \<times> world" where
  "chrome_tabs_remove h i w =
     (case tab_call_error h (TabsRemove i) i w of
        Some m \<Rightarrow> (Some m, record_call (TabsRemove i) w)
      | None \<Rightarrow>
          (None, record_call (TabsRemove i) (w\<lparr>tabs := filter (\<lambda>t. tab_id t \<noteq> i) (tabs w)\<rparr>)))"

text \<open>\<open>chrome.tabs.update(id, {url, active?, pinned?})\<close>: the tab shows the new address.\<close>

definition chrome_tabs_update ::
  "host \<Rightarrow> int \<Rightarrow> string \<Rightarrow> bool option \<Rightarrow> bool option \<Rightarrow> world \<Rightarrow> string option \<times> world" where
  "chrome_tabs_update h i u act pin w =
     (case tab_call_error h (TabsUpdate i u) i w of
        Some m \<Rightarrow> (Some m, record_call (TabsUpdate i u) w)
      | None \<Rightarrow>
          (None,
           record_call (TabsUpdate i u)
             (change_tab i
                (\<lambda>t. t\<lparr>url := u,
                        active := (case act of None \<Rightarrow> active t | Some a \<Rightarrow> a),
                        pinned := (case pin of None \<Rightarrow> pinned t | Some p \<Rightarrow> p)\<rparr>)
                w)))"

definition chrome_alarms_clear :: "world \<Rightarrow> world" where
  "chrome_alarms_clear w = record_call AlarmsClear (w\<lparr>alarm := None\<rparr>)"

definition chrome_alarms_create :: "rat \<Rightarrow> world \<Rightarrow> world" where
  "chrome_alarms_create t w = record_call (AlarmsCreate t) (w\<lparr>alarm := Some t\<rparr>)"

subsection \<open>Helper functions\<close>

definition runtime_getURL :: "host \<Rightarrow> string \<Rightarrow> string" where
  "runtime_getURL h path = ''chrome-extension://'' @ extensionId h @ ''/'' @ path"

definition hex_digit :: "nat \<Rightarrow> char" where
  "hex_digit n = ''0123456789ABCDEF'' ! (n mod 16)"

definition unreserved :: "char \<Rightarrow> bool" where
  "unreserved c =
     (let n = (of_char c :: nat)
      in (48 \<le> n \<and> n \<le> 57) \<or> (65 \<le> n \<and> n \<le> 90) \<or> (97 \<le> n \<and> n \<le> 122)
         \<or> c \<in> set ''*-._'')"

definition percent_byte :: "nat \<Rightarrow> string" where
  "percent_byte n = [CHR ''%'', hex_digit (n div 16), hex_digit (n mod 16)]"

definition encode_char :: "char \<Rightarrow> string" where
  \<comment> \<open>a character from 128 on is two bytes in UTF-8\<close>
  "encode_char c =
     (if unreserved c then [c]
      else if c = CHR '' '' then ''+''
      else if (of_char c :: nat) < 128 then percent_byte (of_char c)
      else percent_byte (192 + of_char c div 64) @ percent_byte (128 + of_char c mod 64))"

definition form_encode :: "string \<Rightarrow> string" where
  \<comment> \<open>how \<open>URLSearchParams.toString()\<close> writes a value\<close>
  "form_encode s = concat (map encode_char s)"

definition getSuspendedUrl :: "host \<Rightarrow> string \<Rightarrow> string \<Rightarrow> string" where
  "getSuspendedUrl h originalUrl ttl =
     runtime_getURL h ''suspended.html'' @ ''?'' @ ''url='' @ form_encode originalUrl
       @ (if ttl \<noteq> [] then ''&title='' @ form_encode ttl else [])"

definition starts_with :: "string \<Rightarrow> string \<Rightarrow> bool" where
  "starts_with s p = (take (length p) s = p)"

definition isExtensionSuspendedPage :: "host \<Rightarrow> string \<Rightarrow> bool" where
  "isExtensionSuspendedPage h u = starts_with u (runtime_getURL h ''suspended.html'')"

definition persistSuspendedCache :: "host \<Rightarrow> world \<Rightarrow> world" where
  \<comment> \<open>a storage error is caught and logged\<close>
  "persistSuspendedCache h w =
     (case fails h (StorageSet SUSPENDED_TABS) of
        Some m \<Rightarrow> record_call (StorageSet SUSPENDED_TABS) w
      | None \<Rightarrow> record_call (StorageSet SUSPENDED_TABS) (w\<lparr>storedTabs := suspendedTabsCache w\<rparr>))"

subsection \<open>Eligibility\<close>

definition eligibleForSuspend :: "host \<Rightarrow> settings \<Rightarrow> tab \<Rightarrow> reason \<Rightarrow> bool option" where
  \<comment> \<open>\<open>None\<close>: the whitelist test threw\<close>
  "eligibleForSuspend h s t r =
     (if tab_id t = 0 then Some False
      else if \<not> starts_with (url t) ''http'' \<and> \<not> starts_with (url t) ''file:'' then Some False
      else if isExtensionSuspendedPage h (url t) then Some False
      else if ignorePinned s \<and> pinned t then Some False
      else if ignoreAudio s \<and> audible t then Some False
      else if ignoreActive s \<and> active t \<and> r = Auto then Some False
      else case isWhitelisted (regexp h) s (url t) of
             None \<Rightarrow> None
           | Some True \<Rightarrow> Some False
           | Some False \<Rightarrow> Some True)"

subsection \<open>Suspension core\<close>

text \<open>\<open>e?.message\<close> for the exception that the whitelist test throws.\<close>

definition whitelist_error :: "host \<Rightarrow> settings \<Rightarrow> string \<Rightarrow> string" where
  "whitelist_error h s u =
     (case throwing_pattern (regexp h) (whitelistEntries s) u of
        None \<Rightarrow> []
      | Some p \<Rightarrow> regexp_message h (pattern_source p))"

definition resp_fail :: response where
  "resp_fail = [(''success'', JBool False)]"

definition resp_already :: response where
  "resp_already = [(''success'', JBool False), (''already'', JBool True)]"

definition resp_error :: "string \<Rightarrow> response" where
  "resp_error m = [(''success'', JBool False), (''error'', JStr m)]"

definition resp_replaced :: response where
  "resp_replaced = [(''success'', JBool True), (''replaced'', JBool True)]"

definition resp_navigated :: response where
  "resp_navigated = [(''success'', JBool True), (''navigated'', JBool True)]"

definition resp_not_suspended :: response where
  "resp_not_suspended = [(''success'', JBool False), (''notSuspended'', JBool True)]"

definition resp_restored :: "string \<Rightarrow> response" where
  "resp_restored how = [(''success'', JBool True), (''restored'', JStr how)]"

definition baseRecord :: "world \<Rightarrow> tab \<Rightarrow> reason \<Rightarrow> tabRecord" where
  "baseRecord w t r =
     \<lparr>rec_url = url t, rec_title = title t, rec_favicon = favIconUrl t,
      rec_suspendedAt = clock w, rec_reason = r, rec_originalTabId = tab_id t,
      rec_windowId = windowId t, rec_index = index t, rec_pinned = pinned t,
      rec_wasActive = active t, rec_strategy = None, rec_placeholderTabId = None\<rparr>"

text \<open>
  The replace strategy after \<open>chrome.tabs.create\<close> has returned the new tab: the move and
  the grouping are tried and their errors dropped, the record is stored under the new
  tab's id and persisted, and the original tab is closed, an error dropped again.
\<close>

definition replace_rest :: "host \<Rightarrow> tab \<Rightarrow> tabRecord \<Rightarrow> tab \<Rightarrow> world \<Rightarrow> world" where
  "replace_rest h t base newTab w =
     (let w1 = (if index newTab \<noteq> rec_index base
                then snd (chrome_tabs_move h (tab_id newTab) (rec_index base) w) else w);
          w2 = (if groupId t \<ge> 0
                then snd (chrome_tabs_group h (tab_id newTab) (groupId t) w1) else w1);
          w3 = w2\<lparr>suspendedTabsCache := (suspendedTabsCache w2)
                   (tab_id newTab \<mapsto>
                      base\<lparr>rec_strategy := Some Replace,
                           rec_placeholderTabId := Some (tab_id newTab)\<rparr>)\<rparr>;
          w4 = persistSuspendedCache h w3
      in snd (chrome_tabs_remove h (tab_id t) w4))"

definition navigate_fallback :: "host \<Rightarrow> int \<Rightarrow> tabRecord \<Rightarrow> world \<Rightarrow> response \<times> world" where
  "navigate_fallback h tabId base w =
     (let record = base\<lparr>rec_strategy := Some Navigate\<rparr>;
          w1 = w\<lparr>suspendedTabsCache := (suspendedTabsCache w)(tabId \<mapsto> record)\<rparr>;
          w2 = persistSuspendedCache h w1
      in case chrome_tabs_update h tabId (getSuspendedUrl h (rec_url record) (rec_title record))
                None None w2 of
           (Some m, w3) \<Rightarrow> (resp_error m, w3)
         | (None, w3) \<Rightarrow> (resp_navigated, w3))"

definition suspendTab :: "host \<Rightarrow> int \<Rightarrow> reason \<Rightarrow> world \<Rightarrow> response \<times> world" where
  "suspendTab h tabId r w =
     (case chrome_tabs_get h tabId w of
        (Inl m, w1) \<Rightarrow> (resp_error m, w1)
      | (Inr t, w1) \<Rightarrow>
          (case eligibleForSuspend h (currentSettings w1) t r of
             None \<Rightarrow> (resp_error (whitelist_error h (currentSettings w1) (url t)), w1)
           | Some False \<Rightarrow> (resp_fail, w1)
           | Some True \<Rightarrow>
               if isExtensionSuspendedPage h (url t) then (resp_already, w1)
               else if suspendedTabsCache w1 tabId \<noteq> None then (resp_already, w1)
               else
                 (let base = baseRecord w1 t r
                  in case chrome_tabs_create h (windowId t) (index t + 1) (active t) (pinned t)
                            (getSuspendedUrl h (rec_url base) (rec_title base)) w1 of
                       (Inr newTab, w2) \<Rightarrow> (resp_replaced, replace_rest h t base newTab w2)
                     | (Inl m, w2) \<Rightarrow> navigate_fallback h tabId base w2)))"

definition unsuspendTab :: "host \<Rightarrow> int \<Rightarrow> world \<Rightarrow> response \<times> world" where
  "unsuspendTab h tabId w =
     (case suspendedTabsCache w tabId of
        None \<Rightarrow> (resp_not_suspended, w)
      | Some rec \<Rightarrow>
          (let w1 = w\<lparr>suspendedTabsCache := (suspendedTabsCache w)(tabId := None)\<rparr>;
               w2 = persistSuspendedCache h w1
           in if rec_strategy rec = Some Replace
              then (case chrome_tabs_update h tabId (rec_url rec) (Some True) (Some (rec_pinned rec)) w2 of
                      (Some m, w3) \<Rightarrow> (resp_error m, w3)
                    | (None, w3) \<Rightarrow> (resp_restored ''replace'', w3))
              else (case chrome_tabs_update h tabId (rec_url rec) None None w2 of
                      (Some m, w3) \<Rightarrow> (resp_error m, w3)
                    | (None, w3) \<Rightarrow> (resp_restored ''navigate'', w3))))"

subsection \<open>Tab lifecycle hooks\<close>

definition onRemoved :: "host \<Rightarrow> int \<Rightarrow> world \<Rightarrow> world" where
  "onRemoved h tabId w =
     (let w1 = (if suspendedTabsCache w tabId \<noteq> None
                then persistSuspendedCache h
                       (w\<lparr>suspendedTabsCache := (suspendedTabsCache w)(tabId := None)\<rparr>)
                else w)
      in if lastActivityMap w1 tabId \<noteq> None \<and> lastActivityMap w1 tabId \<noteq> Some 0
         then w1\<lparr>lastActivityMap := (lastActivityMap w1)(tabId := None)\<rparr>
         else w1)"

definition onUpdated :: "host \<Rightarrow> int \<Rightarrow> string option \<Rightarrow> world \<Rightarrow> world" where
  \<comment> \<open>the second argument is \<open>changeInfo.url\<close>\<close>
  "onUpdated h tabId changeUrl w =
     (case changeUrl of
        None \<Rightarrow> w
      | Some u \<Rightarrow>
          if u \<noteq> [] \<and> suspendedTabsCache w tabId \<noteq> None \<and> \<not> isExtensionSuspendedPage h u
          then persistSuspendedCache h
                 (w\<lparr>suspendedTabsCache := (suspendedTabsCache w)(tabId := None)\<rparr>)
          else w)"

subsection \<open>Messages\<close>

text \<open>
  \<open>req.tabId || sender.tab?.id || (await chrome.tabs.query(...))[0]?.id\<close>: an id that is
  missing or \<open>0\<close> gives way to the next. \<open>Inl\<close>: the query threw.
\<close>

definition default_tab ::
  "host \<Rightarrow> int option \<Rightarrow> int option \<Rightarrow> world \<Rightarrow> (string + int option) \<times> world" where
  "default_tab h reqTabId senderTabId w =
     (if reqTabId \<noteq> None \<and> reqTabId \<noteq> Some 0 then (Inr reqTabId, w)
      else if senderTabId \<noteq> None \<and> senderTabId \<noteq> Some 0 then (Inr senderTabId, w)
      else case chrome_tabs_query_active h w of
             (Inl m, w1) \<Rightarrow> (Inl m, w1)
           | (Inr [], w1) \<Rightarrow> (Inr None, w1)
           | (Inr (t # ts), w1) \<Rightarrow> (Inr (Some (tab_id t)), w1))"

text \<open>The actions \<open>suspendTab\<close> and \<open>suspendCurrentTab\<close>; \<open>None\<close>: no response is sent.\<close>

definition onMessage_suspendTab ::
  "host \<Rightarrow> int option \<Rightarrow> int option \<Rightarrow> world \<Rightarrow> response option \<times> world" where
  "onMessage_suspendTab h reqTabId senderTabId w =
     (case default_tab h reqTabId senderTabId w of
        (Inl m, w1) \<Rightarrow> (None, w1)
      | (Inr None, w1) \<Rightarrow> (Some resp_fail, w1)
      | (Inr (Some i), w1) \<Rightarrow>
          (case suspendTab h i Manual w1 of (r, w2) \<Rightarrow> (Some r, w2)))"

definition onMessage_getSuspendedTabData :: "int option \<Rightarrow> world \<Rightarrow> tabRecord option" where
  \<comment> \<open>\<open>None\<close>: \<open>null\<close> or \<open>undefined\<close> is sent\<close>
  "onMessage_getSuspendedTabData senderTabId w =
     (case senderTabId of None \<Rightarrow> None | Some i \<Rightarrow> suspendedTabsCache w i)"

subsection \<open>Auto suspension: the scan and its alarm\<close>

text \<open>
  The two module variables of the scheduler and, with them, what the event loop holds
  for it: the activations of \<open>runInactivityScan\<close> that wait for \<open>chrome.tabs.query\<close> to
  answer, each with its locals \<open>thresholdMs\<close> and \<open>now\<close>.
\<close>

record sched =
  scanRunning :: bool
  scanRerunRequested :: bool
  awaiting :: "(rat \<times> rat) list"

definition activity_of :: "world \<Rightarrow> int \<Rightarrow> rat" where
  \<comment> \<open>\<open>lastActivityMap[id]\<close> read for its truth value: a missing entry counts as \<open>0\<close>\<close>
  "activity_of w i = (case lastActivityMap w i of None \<Rightarrow> 0 | Some t \<Rightarrow> t)"

definition min_delay :: "rat option \<Rightarrow> rat \<Rightarrow> rat option" where
  \<comment> \<open>\<open>Math.min(nextDelay, d)\<close>, \<open>None\<close> being \<open>Infinity\<close>\<close>
  "min_delay nd d = (case nd of None \<Rightarrow> Some d | Some n \<Rightarrow> Some (min n d))"

text \<open>
  One turn of the loop over the tabs. The result is the new \<open>nextDelay\<close>, or \<open>None\<close> when
  the eligibility test threw, which ends the scan.
\<close>

definition scan_tab ::
  "host \<Rightarrow> rat \<Rightarrow> rat \<Rightarrow> tab \<Rightarrow> rat option \<Rightarrow> world \<Rightarrow> (rat option) option \<times> world" where
  "scan_tab h thresholdMs now t nextDelay w =
     (if tab_id t = 0 then (Some nextDelay, w)
      else if isExtensionSuspendedPage h (url t) then (Some nextDelay, w)
      else
        (let w1 = (if activity_of w (tab_id t) = 0 \<and> lastAccessed t \<noteq> 0
                   then w\<lparr>lastActivityMap := (lastActivityMap w)(tab_id t \<mapsto> lastAccessed t)\<rparr>
                   else w);
             last = (if activity_of w1 (tab_id t) \<noteq> 0 then activity_of w1 (tab_id t)
                     else lastAccessed t)
         in if last = 0 then (Some nextDelay, w1)
            else
              (let inactiveFor = now - last
               in if inactiveFor \<ge> thresholdMs
                  then (case eligibleForSuspend h (currentSettings w1) t Auto of
                          None \<Rightarrow> (None, w1)
                        | Some True \<Rightarrow> (Some nextDelay, snd (suspendTab h (tab_id t) Auto w1))
                        | Some False \<Rightarrow> (Some (min_delay nextDelay thresholdMs), w1))
                  else (Some (min_delay nextDelay (thresholdMs - inactiveFor)), w1))))"

fun scan_tabs ::
  "host \<Rightarrow> rat \<Rightarrow> rat \<Rightarrow> tab list \<Rightarrow> rat option \<Rightarrow> world \<Rightarrow> (rat option) option \<times> world" where
  "scan_tabs h thresholdMs now [] nextDelay w = (Some nextDelay, w)"
| "scan_tabs h thresholdMs now (t # ts) nextDelay w =
     (case scan_tab h thresholdMs now t nextDelay w of
        (None, w1) \<Rightarrow> (None, w1)
      | (Some nd, w1) \<Rightarrow> scan_tabs h thresholdMs now ts nd w1)"

definition next_wake :: "rat \<Rightarrow> rat option \<Rightarrow> rat" where
  "next_wake thresholdMs nextDelay =
     (let nd = (case nextDelay of None \<Rightarrow> 5 * 60 * 1000 | Some d \<Rightarrow> d)
      in max 5000 (min nd (max thresholdMs (15 * 60 * 1000))))"

definition thresholdMs_of :: "settings \<Rightarrow> rat" where
  \<comment> \<open>exact; the script's doubles give the same for a whole number of minutes\<close>
  "thresholdMs_of s = autoSuspendTime s * 60 * 1000"

text \<open>
  What \<open>runInactivityScan\<close> does from the answer of \<open>chrome.tabs.query\<close> to the end of
  its \<open>try\<close> block, with its locals \<open>thresholdMs\<close> and \<open>now\<close>: the loop over the
  tabs and the alarm. The answer is the list of tabs at that moment.
\<close>

definition scan_after_query :: "host \<Rightarrow> rat \<Rightarrow> rat \<Rightarrow> world \<Rightarrow> world" where
  "scan_after_query h thresholdMs now w =
     (case chrome_tabs_query h w of
        (Inl m, w2) \<Rightarrow> w2
      | (Inr ts, w2) \<Rightarrow>
          (case scan_tabs h thresholdMs now ts None w2 of
             (None, w3) \<Rightarrow> w3
           | (Some nextDelay, w3) \<Rightarrow>
               chrome_alarms_create (clock w3 + next_wake thresholdMs nextDelay) w3))"

text \<open>The whole \<open>try\<close> block, for a pass during which no other handler runs.\<close>

definition scan_try :: "host \<Rightarrow> world \<Rightarrow> world" where
  "scan_try h w =
     (let w1 = chrome_alarms_clear w
      in if \<not> autoSuspend (currentSettings w1) then w1
         else
           (let thresholdMs = thresholdMs_of (currentSettings w1)
            in if thresholdMs = 0 then w1
               else scan_after_query h thresholdMs (clock w1) w1))"

text \<open>
  A call of \<open>runInactivityScan\<close>, as far as it runs before it gives way to other
  handlers: to the \<open>return\<close> under the guard, or to the wait for \<open>chrome.tabs.query\<close>,
  where the activation is put among the waiting ones, or, when auto-suspend is off or
  the threshold is zero, through the \<open>finally\<close> block, which calls the function again
  when a rerun was asked for.
\<close>

function runInactivityScan :: "sched \<times> world \<Rightarrow> sched \<times> world" where
  "runInactivityScan (s, w) =
     (if scanRunning s then (s\<lparr>scanRerunRequested := True\<rparr>, w)
      else
        (let s1 = s\<lparr>scanRunning := True\<rparr>;
             w1 = chrome_alarms_clear w
         in if autoSuspend (currentSettings w1) \<and> thresholdMs_of (currentSettings w1) \<noteq> 0
            then (s1\<lparr>awaiting := awaiting s1 @ [(thresholdMs_of (currentSettings w1), clock w1)]\<rparr>,
                  w1)
            else
              (let s2 = s1\<lparr>scanRunning := False\<rparr>
               in if scanRerunRequested s2
                  then runInactivityScan (s2\<lparr>scanRerunRequested := False\<rparr>, w1)
                  else (s2, w1))))"
  by pat_completeness auto
termination
  by (relation "measure (\<lambda>(s, w). if scanRerunRequested s then 1 else 0)") auto

text \<open>The \<open>finally\<close> block of an activation that has waited.\<close>

definition scan_finally :: "sched \<times> world \<Rightarrow> sched \<times> world" where
  "scan_finally sw =
     (case sw of (s, w) \<Rightarrow>
        (let s2 = s\<lparr>scanRunning := False\<rparr>
         in if scanRerunRequested s2
            then runInactivityScan (s2\<lparr>scanRerunRequested := False\<rparr>, w)
            else (s2, w)))"

text \<open>
  The browser answers the query: the activation that has waited longest goes on to its
  end. Nothing happens when none is waiting.
\<close>

definition scan_resume :: "host \<Rightarrow> sched \<times> world \<Rightarrow> sched \<times> world" where
  "scan_resume h sw =
     (case sw of (s, w) \<Rightarrow>
        (case awaiting s of
           [] \<Rightarrow> (s, w)
         | (thresholdMs, now) # rest \<Rightarrow>
             scan_finally (s\<lparr>awaiting := rest\<rparr>, scan_after_query h thresholdMs now w)))"

definition configureAlarm :: "sched \<times> world \<Rightarrow> sched \<times> world" where
  "configureAlarm sw =
     (case sw of (s, w) \<Rightarrow>
        (let w1 = chrome_alarms_clear w
         in if \<not> autoSuspend (currentSettings w1) then (s, w1)
            else runInactivityScan (s, w1)))"

definition onAlarm :: "sched \<times> world \<Rightarrow> sched \<times> world" where
  \<comment> \<open>the listener of \<open>chrome.alarms.onAlarm\<close>, for the one alarm the script sets\<close>
  "onAlarm sw = runInactivityScan sw"

definition onActivated :: "int \<Rightarrow> sched \<times> world \<Rightarrow> sched \<times> world" where
  "onActivated tabId sw =
     (case sw of (s, w) \<Rightarrow>
        (let w1 = w\<lparr>lastActivityMap := (lastActivityMap w)(tabId \<mapsto> clock w)\<rparr>
         in if autoSuspend (currentSettings w1) then runInactivityScan (s, w1) else (s, w1)))"

subsection \<open>The settings store\<close>

definition stored_of :: "settings \<Rightarrow> storedSettings" where
  \<comment> \<open>the settings object as it is written to storage\<close>
  "stored_of s =
     \<lparr>st_autoSuspend = Some (autoSuspend s), st_autoSuspendTime = Some (JNum (autoSuspendTime s)),
      st_ignorePinned = Some (ignorePinned s), st_ignoreAudio = Some (ignoreAudio s),
      st_ignoreActive = Some (ignoreActive s), st_urlWhitelist = Some (urlWhitelist s)\<rparr>"

definition or_else :: "'a option \<Rightarrow> 'a \<Rightarrow> 'a" where
  "or_else x d = (case x of None \<Rightarrow> d | Some v \<Rightarrow> v)"

definition merge_settings :: "settings \<Rightarrow> partialSettings \<Rightarrow> settings" where
  \<comment> \<open>\<open>{ ...currentSettings, ...newSettings }\<close>\<close>
  "merge_settings s p =
     \<lparr>autoSuspend = or_else (p_autoSuspend p) (autoSuspend s),
      autoSuspendTime = or_else (p_autoSuspendTime p) (autoSuspendTime s),
      ignorePinned = or_else (p_ignorePinned p) (ignorePinned s),
      ignoreAudio = or_else (p_ignoreAudio p) (ignoreAudio s),
      ignoreActive = or_else (p_ignoreActive p) (ignoreActive s),
      urlWhitelist = or_else (p_urlWhitelist p) (urlWhitelist s)\<rparr>"

text \<open>
  \<open>{ ...DEFAULT_SETTINGS, ...(stored || {}) }\<close> followed by the check of the timeout: the
  merged timeout is the stored value when there is one, and it is replaced by the default
  unless it is a number above zero.
\<close>

definition settings_from_storage :: "storedSettings option \<Rightarrow> settings" where
  "settings_from_storage stored =
     (case stored of
        None \<Rightarrow> DEFAULT_SETTINGS
      | Some st \<Rightarrow>
          (let t = or_else (st_autoSuspendTime st) (JNum (autoSuspendTime DEFAULT_SETTINGS))
           in \<lparr>autoSuspend = or_else (st_autoSuspend st) (autoSuspend DEFAULT_SETTINGS),
               autoSuspendTime =
                 (if \<not> is_number t \<or> num_of t \<le> 0 then autoSuspendTime DEFAULT_SETTINGS
                  else num_of t),
               ignorePinned = or_else (st_ignorePinned st) (ignorePinned DEFAULT_SETTINGS),
               ignoreAudio = or_else (st_ignoreAudio st) (ignoreAudio DEFAULT_SETTINGS),
               ignoreActive = or_else (st_ignoreActive st) (ignoreActive DEFAULT_SETTINGS),
               urlWhitelist = or_else (st_urlWhitelist st) (urlWhitelist DEFAULT_SETTINGS)\<rparr>))"

definition loadSettings :: "host \<Rightarrow> sched \<times> world \<Rightarrow> sched \<times> world" where
  "loadSettings h sw =
     (case sw of (s, w) \<Rightarrow>
        (case fails h (StorageGet SETTINGS) of
           Some m \<Rightarrow> (s, (record_call (StorageGet SETTINGS) w)\<lparr>currentSettings := DEFAULT_SETTINGS\<rparr>)
         | None \<Rightarrow>
             configureAlarm
               (s, (record_call (StorageGet SETTINGS) w)
                     \<lparr>currentSettings := settings_from_storage (storedSettings w)\<rparr>)))"

definition saveSettings :: "host \<Rightarrow> partialSettings \<Rightarrow> sched \<times> world \<Rightarrow> bool \<times> sched \<times> world" where
  "saveSettings h newSettings sw =
     (case sw of (s, w) \<Rightarrow>
        (let w1 = w\<lparr>currentSettings := merge_settings (currentSettings w) newSettings\<rparr>
         in case fails h (StorageSet SETTINGS) of
              Some m \<Rightarrow> (False, s, record_call (StorageSet SETTINGS) w1)
            | None \<Rightarrow>
                (True,
                 configureAlarm
                   (s, record_call (StorageSet SETTINGS)
                         (w1\<lparr>storedSettings := Some (stored_of (currentSettings w1))\<rparr>)))))"

subsection \<open>Handlers in turn\<close>

text \<open>
  What can happen while a scan waits, and at any other time: the alarm fires, a tab is
  activated, the alarm is configured, settings are saved or loaded, some other handler
  changes the world, or the browser answers the query of a waiting scan.
\<close>

datatype event =
    Alarm
  | Activated int
  | Configure
  | Save partialSettings
  | Load
  | Other "world \<Rightarrow> world"
  | Resume

fun step :: "host \<Rightarrow> event \<Rightarrow> sched \<times> world \<Rightarrow> sched \<times> world" where
  "step h Alarm sw = onAlarm sw"
| "step h (Activated tabId) sw = onActivated tabId sw"
| "step h Configure sw = configureAlarm sw"
| "step h (Save newSettings) sw = snd (saveSettings h newSettings sw)"
| "step h Load sw = loadSettings h sw"
| "step h (Other f) sw = (fst sw, f (snd sw))"
| "step h Resume sw = scan_resume h sw"

fun run :: "host \<Rightarrow> event list \<Rightarrow> sched \<times> world \<Rightarrow> sched \<times> world" where
  "run h [] sw = sw"
| "run h (e # es) sw = run h es (step h e sw)"

text \<open>The scheduler as the script starts it, and what holds of it at every moment.\<close>

definition idle :: sched where
  "idle = \<lparr>scanRunning = False, scanRerunRequested = False, awaiting = []\<rparr>"

definition scan_inv :: "sched \<Rightarrow> bool" where
  "scan_inv s =
     (length (awaiting s) = (if scanRunning s then 1 else 0)
      \<and> (scanRerunRequested s \<longrightarrow> scanRunning s))"

subsection \<open>What a transition leaves alone\<close>

text \<open>
  \<open>frame w w'\<close>: the step from \<open>w\<close> to \<open>w'\<close> has kept the settings, the activity map,
  the clock, the alarm, the stored settings and the focused window, and has neither
  cleared the alarm nor asked for the list of tabs.
\<close>

definition frame :: "world \<Rightarrow> world \<Rightarrow> bool" where
  "frame w w' =
     (currentSettings w' = currentSettings w \<and> lastActivityMap w' = lastActivityMap w
      \<and> clock w' = clock w \<and> alarm w' = alarm w \<and> storedSettings w' = storedSettings w
      \<and> currentWindow w' = currentWindow w
      \<and> count_list (calls w') AlarmsClear = count_list (calls w) AlarmsClear
      \<and> count_list (calls w') TabsQuery = count_list (calls w) TabsQuery)"

text \<open>\<open>scan_frame\<close>: the same without the activity map, which the scan seeds.\<close>

definition scan_frame :: "world \<Rightarrow> world \<Rightarrow> bool" where
  "scan_frame w w' =
     (currentSettings w' = currentSettings w \<and> clock w' = clock w \<and> alarm w' = alarm w
      \<and> storedSettings w' = storedSettings w
      \<and> count_list (calls w') AlarmsClear = count_list (calls w) AlarmsClear
      \<and> count_list (calls w') TabsQuery = count_list (calls w) TabsQuery)"

text \<open>
  The contributions to the next wake-up as the specification words them: a tab that the
  scan looks at contributes the time it has left when it is not yet due, and the whole
  threshold when it is due and the policy rejects it.
\<close>

definition last_activity :: "(int \<rightharpoonup> rat) \<Rightarrow> tab \<Rightarrow> rat" where
  "last_activity am t =
     (case am (tab_id t) of
        None \<Rightarrow> lastAccessed t
      | Some a \<Rightarrow> if a \<noteq> 0 then a else lastAccessed t)"

definition contribution ::
  "host \<Rightarrow> settings \<Rightarrow> (int \<rightharpoonup> rat) \<Rightarrow> rat \<Rightarrow> rat \<Rightarrow> tab \<Rightarrow> rat option" where
  "contribution h s am thresholdMs now t =
     (if tab_id t = 0 \<or> isExtensionSuspendedPage h (url t) \<or> last_activity am t = 0 then None
      else if now - last_activity am t < thresholdMs
      then Some (thresholdMs - (now - last_activity am t))
      else if eligibleForSuspend h s t Auto = Some False then Some thresholdMs
      else None)"

definition contributions ::
  "host \<Rightarrow> settings \<Rightarrow> (int \<rightharpoonup> rat) \<Rightarrow> rat \<Rightarrow> rat \<Rightarrow> tab list \<Rightarrow> rat list" where
  "contributions h s am thresholdMs now ts =
     List.map_filter (contribution h s am thresholdMs now) ts"

definition min_contribution :: "rat list \<Rightarrow> rat option" where
  "min_contribution cs = (if cs = [] then None else Some (Min (set cs)))"

subsection \<open>The tab that stands for a suspended page\<close>

text \<open>
  After \<open>suspendTab\<close> has answered in the world \<open>w\<close>: the placeholder the browser has
  just created when the answer says \<open>replaced\<close>, the tab itself otherwise.
\<close>

definition resulting_tab :: "response \<Rightarrow> world \<Rightarrow> int \<Rightarrow> int" where
  "resulting_tab resp w tabId = (if truthy_field resp ''replaced'' then fresh_tab_id w else tabId)"

subsection \<open>Example worlds\<close>

text \<open>
  A browser in which no call fails, one in which \<open>chrome.tabs.create\<close> throws and one in
  which \<open>chrome.tabs.update\<close> throws; a window with one ordinary tab, the same with the
  tab pinned and focused, and a window whose only tab is the placeholder of a suspended
  page.
\<close>

definition quiet_host :: host where
  "quiet_host =
     \<lparr>regexp = regexp_test,
      regexp_message = (\<lambda>src. ''Invalid regular expression: /'' @ src @ ''/''),
      extensionId = ''abcdefghijklmnop'', fails = (\<lambda>c. None)\<rparr>"

definition create_fails_host :: host where
  "create_fails_host =
     quiet_host\<lparr>fails := (\<lambda>c. case c of TabsCreate win idx \<Rightarrow> Some ''Cannot create tab'' | _ \<Rightarrow> None)\<rparr>"

definition update_fails_host :: host where
  "update_fails_host =
     quiet_host\<lparr>fails := (\<lambda>c. case c of TabsUpdate i u \<Rightarrow> Some ''Tabs cannot be edited right now'' | _ \<Rightarrow> None)\<rparr>"

definition example_tab :: tab where
  "example_tab =
     \<lparr>tab_id = 7, url = ''https://example.com/'', title = ''Example'', favIconUrl = None,
      windowId = 1, index = 0, pinned = False, audible = False, active = False,
      groupId = - 1, lastAccessed = 1000000\<rparr>"

definition example_world :: world where
  "example_world =
     \<lparr>currentSettings = DEFAULT_SETTINGS, suspendedTabsCache = Map.empty,
      lastActivityMap = Map.empty, tabs = [example_tab], currentWindow = 1,
      storedSettings = None, storedTabs = Map.empty, alarm = None, clock = 2000000,
      calls = []\<rparr>"

definition pinned_old_tab :: tab where
  "pinned_old_tab = example_tab\<lparr>tab_id := 9, pinned := True, lastAccessed := 100000\<rparr>"

definition two_tab_world :: world where
  "two_tab_world = example_world\<lparr>tabs := [pinned_old_tab, example_tab]\<rparr>"

definition due_pinned_world :: world where
  "due_pinned_world = example_world\<lparr>tabs := [pinned_old_tab]\<rparr>"

definition nearly_due_world :: world where
  "nearly_due_world = example_world\<lparr>tabs := [example_tab\<lparr>lastAccessed := 201000\<rparr>]\<rparr>"

definition no_tab_world :: world where
  "no_tab_world = example_world\<lparr>tabs := []\<rparr>"

definition pinned_world :: world where
  "pinned_world = example_world\<lparr>tabs := [example_tab\<lparr>pinned := True, active := True\<rparr>]\<rparr>"

definition example_record :: tabRecord where
  "example_record =
     \<lparr>rec_url = ''https://example.com/'', rec_title = ''Example'', rec_favicon = None,
      rec_suspendedAt = 1900000, rec_reason = Manual, rec_originalTabId = 7,
      rec_windowId = 1, rec_index = 0, rec_pinned = False, rec_wasActive = True,
      rec_strategy = Some Replace, rec_placeholderTabId = Some 8\<rparr>"

definition suspended_world :: world where
  "suspended_world =
     example_world
       \<lparr>suspendedTabsCache := [8 \<mapsto> example_record],
        lastActivityMap := [8 \<mapsto> 1950000],
        tabs := [example_tab\<lparr>tab_id := 8,
                   url := getSuspendedUrl quiet_host ''https://example.com/'' ''Example'',
                   active := True\<rparr>],
        storedTabs := [8 \<mapsto> example_record]\<rparr>"

definition stored_minus_five :: storedSettings where
  "stored_minus_five = (stored_of DEFAULT_SETTINGS)\<lparr>st_autoSuspendTime := Some (JNum (- 5))\<rparr>"

definition partial_update :: partialSettings where
  "partial_update =
     \<lparr>p_autoSuspend = None, p_autoSuspendTime = Some (- 5), p_ignorePinned = Some False,
      p_ignoreAudio = None, p_ignoreActive = None, p_urlWhitelist = Some ''*.example.org/*''\<rparr>"

definition waiting :: sched where
  "waiting = \<lparr>scanRunning = True, scanRerunRequested = False, awaiting = [(1800000, 2000000)]\<rparr>"

section \<open>Properties\<close>

subsection \<open>Frames of the tab operations\<close>

lemma frame_refl [simp]: "frame w w"
  by (simp add: frame_def)

lemma frame_trans: "frame w w1 \<Longrightarrow> frame w1 w2 \<Longrightarrow> frame w w2"
  by (simp add: frame_def)

lemma frame_tabs_get: "frame w (snd (chrome_tabs_get h i w))"
  by (simp add: frame_def chrome_tabs_get_def record_call_def split: option.splits)

lemma frame_tabs_create: "frame w (snd (chrome_tabs_create h win idx act pin u w))"
  by (simp add: frame_def chrome_tabs_create_def record_call_def Let_def split: option.splits)

lemma frame_tabs_move: "frame w (snd (chrome_tabs_move h i idx w))"
  by (simp add: frame_def chrome_tabs_move_def record_call_def change_tab_def split: option.splits)

lemma frame_tabs_group: "frame w (snd (chrome_tabs_group h i g w))"
  by (simp add: frame_def chrome_tabs_group_def record_call_def change_tab_def split: option.splits)

lemma frame_tabs_remove: "frame w (snd (chrome_tabs_remove h i w))"
  by (simp add: frame_def chrome_tabs_remove_def record_call_def split: option.splits)

lemma frame_tabs_update: "frame w (snd (chrome_tabs_update h i u act pin w))"
  by (simp add: frame_def chrome_tabs_update_def record_call_def change_tab_def split: option.splits)

lemma frame_persist: "frame w (persistSuspendedCache h w)"
  by (simp add: frame_def persistSuspendedCache_def record_call_def split: option.splits)

lemma frame_cache_update: "frame w (w\<lparr>suspendedTabsCache := m\<rparr>)"
  by (simp add: frame_def)

lemma frame_replace_rest: "frame w (replace_rest h t base newTab w)"
  unfolding replace_rest_def Let_def
  by (intro frame_trans [OF _ frame_tabs_remove] frame_trans [OF _ frame_persist]
        frame_trans [OF _ frame_cache_update])
     (auto intro: frame_trans frame_tabs_move frame_tabs_group)

lemma frame_navigate_fallback: "frame w (snd (navigate_fallback h i base w))"
proof -
  let ?w1 = "w\<lparr>suspendedTabsCache := (suspendedTabsCache w)(i \<mapsto> base\<lparr>rec_strategy := Some Navigate\<rparr>)\<rparr>"
  have "frame w (persistSuspendedCache h ?w1)"
    by (rule frame_trans [OF frame_cache_update frame_persist])
  then have "frame w (snd (chrome_tabs_update h i u None None (persistSuspendedCache h ?w1)))" for u
    by (rule frame_trans [OF _ frame_tabs_update])
  then show ?thesis
    by (simp add: navigate_fallback_def Let_def split: prod.splits option.splits)
       (metis snd_conv)
qed

lemma frame_suspendTab: "frame w (snd (suspendTab h i r w))"
proof -
  obtain g w1 where g: "chrome_tabs_get h i w = (g, w1)"
    by (cases "chrome_tabs_get h i w")
  have f1: "frame w w1"
    using frame_tabs_get [of w h i] g by simp
  show ?thesis
  proof (cases g)
    case (Inl m)
    with g f1 show ?thesis by (simp add: suspendTab_def)
  next
    case (Inr t)
    let ?base = "baseRecord w1 t r"
    obtain c w2 where c: "chrome_tabs_create h (windowId t) (index t + 1) (active t) (pinned t)
                            (getSuspendedUrl h (rec_url ?base) (rec_title ?base)) w1 = (c, w2)"
      by (cases "chrome_tabs_create h (windowId t) (index t + 1) (active t) (pinned t)
                            (getSuspendedUrl h (rec_url ?base) (rec_title ?base)) w1")
    have f2: "frame w w2"
      using frame_trans [OF f1 frame_tabs_create [of w1 h]] c by (metis snd_conv)
    have f3: "frame w (replace_rest h t ?base newTab w2)" for newTab
      by (rule frame_trans [OF f2 frame_replace_rest])
    have f4: "frame w (snd (navigate_fallback h i ?base w2))"
      by (rule frame_trans [OF f2 frame_navigate_fallback])
    from g Inr c f1 f3 f4 show ?thesis
      by (simp add: suspendTab_def Let_def split: option.splits bool.splits sum.splits)
  qed
qed

subsection \<open>The scan and the settings store\<close>

lemma scan_frame_refl [simp]: "scan_frame w w"
  by (simp add: scan_frame_def)

lemma scan_frame_trans: "scan_frame w w1 \<Longrightarrow> scan_frame w1 w2 \<Longrightarrow> scan_frame w w2"
  by (simp add: scan_frame_def)

lemma frame_scan_frame: "frame w w' \<Longrightarrow> scan_frame w w'"
  by (simp add: frame_def scan_frame_def)

lemma scan_frame_seed: "scan_frame w (w\<lparr>lastActivityMap := m\<rparr>)"
  by (simp add: scan_frame_def)

lemma scan_frame_scan_tab: "scan_frame w (snd (scan_tab h thr now t nd w))"
proof -
  have "scan_frame w (snd (suspendTab h i Auto (w\<lparr>lastActivityMap := m\<rparr>)))" for i m
    by (rule scan_frame_trans [OF scan_frame_seed frame_scan_frame [OF frame_suspendTab]])
  moreover have "scan_frame w (snd (suspendTab h i Auto w))" for i
    by (rule frame_scan_frame [OF frame_suspendTab])
  ultimately show ?thesis
    by (simp add: scan_tab_def Let_def scan_frame_seed split: option.splits bool.splits)
qed

lemma scan_frame_scan_tabs: "scan_frame w (snd (scan_tabs h thr now ts nd w))"
proof (induction ts arbitrary: nd w)
  case Nil
  show ?case by simp
next
  case (Cons t ts)
  obtain r w1 where r: "scan_tab h thr now t nd w = (r, w1)"
    by (cases "scan_tab h thr now t nd w")
  have f1: "scan_frame w w1"
    using scan_frame_scan_tab [of w h thr now t nd] r by simp
  show ?case
  proof (cases r)
    case None
    with r f1 show ?thesis by simp
  next
    case (Some nd1)
    with r scan_frame_trans [OF f1 Cons.IH [of w1 nd1]] show ?thesis by simp
  qed
qed

lemma scan_after_query_keeps:
  "currentSettings (scan_after_query h thr now w) = currentSettings w"
  "storedSettings (scan_after_query h thr now w) = storedSettings w"
  "clock (scan_after_query h thr now w) = clock w"
  "count_list (calls (scan_after_query h thr now w)) AlarmsClear = count_list (calls w) AlarmsClear"
  "count_list (calls (scan_after_query h thr now w)) TabsQuery
     = Suc (count_list (calls w) TabsQuery)"
proof -
  let ?w2 = "record_call TabsQuery w"
  have q: "snd (chrome_tabs_query h w) = ?w2"
    by (simp add: chrome_tabs_query_def split: option.splits)
  obtain r w3 where r: "scan_tabs h thr now (tabs w) None ?w2 = (r, w3)"
    by (cases "scan_tabs h thr now (tabs w) None ?w2")
  have f: "scan_frame ?w2 w3"
    using scan_frame_scan_tabs [of ?w2 h thr now "tabs w" None] r by simp
  have w2: "currentSettings ?w2 = currentSettings w" "storedSettings ?w2 = storedSettings w"
    "clock ?w2 = clock w"
    "count_list (calls ?w2) AlarmsClear = count_list (calls w) AlarmsClear"
    "count_list (calls ?w2) TabsQuery = Suc (count_list (calls w) TabsQuery)"
    by (simp_all add: record_call_def)
  have res: "scan_after_query h thr now w = ?w2
             \<or> scan_after_query h thr now w = w3
             \<or> (\<exists>t. scan_after_query h thr now w = chrome_alarms_create t w3)"
    using r
    by (auto simp: scan_after_query_def chrome_tabs_query_def split: option.splits)
  have c: "currentSettings (chrome_alarms_create t w') = currentSettings w'"
    "storedSettings (chrome_alarms_create t w') = storedSettings w'"
    "clock (chrome_alarms_create t w') = clock w'"
    "count_list (calls (chrome_alarms_create t w')) AlarmsClear = count_list (calls w') AlarmsClear"
    "count_list (calls (chrome_alarms_create t w')) TabsQuery = count_list (calls w') TabsQuery"
    for t w'
    by (simp_all add: chrome_alarms_create_def record_call_def)
  from res f w2 show "currentSettings (scan_after_query h thr now w) = currentSettings w"
    by (auto simp: scan_frame_def c)
  from res f w2 show "storedSettings (scan_after_query h thr now w) = storedSettings w"
    by (auto simp: scan_frame_def c)
  from res f w2 show "clock (scan_after_query h thr now w) = clock w"
    by (auto simp: scan_frame_def c)
  from res f w2
  show "count_list (calls (scan_after_query h thr now w)) AlarmsClear = count_list (calls w) AlarmsClear"
    by (auto simp: scan_frame_def c)
  from res f w2
  show "count_list (calls (scan_after_query h thr now w)) TabsQuery
          = Suc (count_list (calls w) TabsQuery)"
    by (auto simp: scan_frame_def c)
qed

lemma alarms_clear_keeps:
  "currentSettings (chrome_alarms_clear w) = currentSettings w"
  "storedSettings (chrome_alarms_clear w) = storedSettings w"
  "clock (chrome_alarms_clear w) = clock w"
  "count_list (calls (chrome_alarms_clear w)) AlarmsClear = Suc (count_list (calls w) AlarmsClear)"
  "count_list (calls (chrome_alarms_clear w)) TabsQuery = count_list (calls w) TabsQuery"
  by (simp_all add: chrome_alarms_clear_def record_call_def)

lemma scan_try_settings [simp]: "currentSettings (scan_try h w) = currentSettings w"
  and scan_try_stored [simp]: "storedSettings (scan_try h w) = storedSettings w"
  and scan_try_clock [simp]: "clock (scan_try h w) = clock w"
  and scan_try_clears:
    "count_list (calls (scan_try h w)) AlarmsClear = Suc (count_list (calls w) AlarmsClear)"
  and scan_try_queries:
    "count_list (calls (scan_try h w)) TabsQuery
       = (if autoSuspend (currentSettings w) \<and> thresholdMs_of (currentSettings w) \<noteq> 0
          then Suc (count_list (calls w) TabsQuery) else count_list (calls w) TabsQuery)"
  by (simp_all add: scan_try_def Let_def scan_after_query_keeps alarms_clear_keeps)

declare runInactivityScan.simps [simp del]

lemma runInactivityScan_keeps:
  "currentSettings (snd (runInactivityScan sw)) = currentSettings (snd sw)
   \<and> storedSettings (snd (runInactivityScan sw)) = storedSettings (snd sw)
   \<and> clock (snd (runInactivityScan sw)) = clock (snd sw)"
proof (induction sw rule: runInactivityScan.induct)
  case (1 s w)
  then show ?case
    by (subst (1 2 3) runInactivityScan.simps) (simp add: Let_def alarms_clear_keeps)
qed

lemma configureAlarm_keeps:
  "currentSettings (snd (configureAlarm (s, w))) = currentSettings w
   \<and> storedSettings (snd (configureAlarm (s, w))) = storedSettings w"
  using runInactivityScan_keeps [of "(s, chrome_alarms_clear w)"]
  by (simp add: configureAlarm_def Let_def alarms_clear_keeps)

lemma loadSettings_current:
  "currentSettings (snd (loadSettings h (s, w)))
     = (case fails h (StorageGet SETTINGS) of
          Some m \<Rightarrow> DEFAULT_SETTINGS
        | None \<Rightarrow> settings_from_storage (storedSettings w))"
  by (simp add: loadSettings_def configureAlarm_keeps record_call_def split: option.splits)

lemma settings_from_storage_positive: "0 < autoSuspendTime (settings_from_storage stored)"
  by (cases stored)
     (auto simp: settings_from_storage_def DEFAULT_SETTINGS_def Let_def not_le)

lemma loadSettings_timeout_positive:
  "0 < autoSuspendTime (currentSettings (snd (loadSettings h sw)))"
  by (cases sw)
     (simp add: loadSettings_current settings_from_storage_positive DEFAULT_SETTINGS_def
        split: option.splits)

text \<open>
  C9. When the stored settings object has no \<open>autoSuspendTime\<close>, or one that is not a
  number, or a number that is not above zero (such as \<open>-5\<close>), the settings in force after
  \<open>loadSettings\<close> have the default timeout of 30 minutes. This holds whether or not the
  read from storage throws.
\<close>

theorem loadSettings_invalid_timeout:
  assumes "storedSettings w = Some st"
    and "case st_autoSuspendTime st of None \<Rightarrow> True | Some v \<Rightarrow> \<not> is_number v \<or> num_of v \<le> 0"
  shows "autoSuspendTime (currentSettings (snd (loadSettings h (s, w)))) = 30"
proof (cases "fails h (StorageGet SETTINGS)")
  case (Some m)
  then show ?thesis
    by (simp add: loadSettings_current DEFAULT_SETTINGS_def)
next
  case None
  from assms have "autoSuspendTime (settings_from_storage (storedSettings w)) = 30"
    by (auto simp: settings_from_storage_def or_else_def DEFAULT_SETTINGS_def is_number_def
        num_of_def Let_def split: option.splits)
  with None show ?thesis
    by (simp add: loadSettings_current)
qed

theorem loadSettings_invalid_timeout_witness:
  "storedSettings (example_world\<lparr>storedSettings := Some stored_minus_five\<rparr>) = Some stored_minus_five
   \<and> st_autoSuspendTime stored_minus_five = Some (JNum (- 5))
   \<and> autoSuspendTime (currentSettings (snd (loadSettings quiet_host
         (idle, example_world\<lparr>storedSettings := Some stored_minus_five\<rparr>)))) = 30"
  using loadSettings_invalid_timeout
    [of "example_world\<lparr>storedSettings := Some stored_minus_five\<rparr>" stored_minus_five quiet_host idle]
  by (simp add: stored_minus_five_def stored_of_def is_number_def num_of_def)


text \<open>
  C10. \<open>saveSettings\<close> leaves in memory, field by field, the value of the partial
  object where it has one and the value in force before where it has none, unchecked
  and whether or not the write to storage throws; storage holds the same object when the
  write does not throw. A partial object with \<open>autoSuspendTime = -5\<close> therefore leaves
  \<open>-5\<close> as the timeout: the threshold the scan reads is \<open>-300000\<close> milliseconds, and
  the scan that \<open>saveSettings\<close> itself starts (auto-suspend being on and no scan
  running) waits with that threshold among its locals. After the next \<open>loadSettings\<close>
  the timeout is above zero again, and it is the default 30 when the write had gone
  through.
\<close>

theorem saveSettings_merges_verbatim:
  "currentSettings (snd (snd (saveSettings h p (s, w))))
     = \<lparr>autoSuspend =
          (case p_autoSuspend p of None \<Rightarrow> autoSuspend (currentSettings w) | Some v \<Rightarrow> v),
        autoSuspendTime =
          (case p_autoSuspendTime p of None \<Rightarrow> autoSuspendTime (currentSettings w) | Some v \<Rightarrow> v),
        ignorePinned =
          (case p_ignorePinned p of None \<Rightarrow> ignorePinned (currentSettings w) | Some v \<Rightarrow> v),
        ignoreAudio =
          (case p_ignoreAudio p of None \<Rightarrow> ignoreAudio (currentSettings w) | Some v \<Rightarrow> v),
        ignoreActive =
          (case p_ignoreActive p of None \<Rightarrow> ignoreActive (currentSettings w) | Some v \<Rightarrow> v),
        urlWhitelist =
          (case p_urlWhitelist p of None \<Rightarrow> urlWhitelist (currentSettings w) | Some v \<Rightarrow> v)\<rparr>
   \<and> (fails h (StorageSet SETTINGS) = None \<longrightarrow>
        storedSettings (snd (snd (saveSettings h p (s, w))))
          = Some
              \<lparr>st_autoSuspend =
                 Some (case p_autoSuspend p of None \<Rightarrow> autoSuspend (currentSettings w)
                       | Some v \<Rightarrow> v),
               st_autoSuspendTime =
                 Some (JNum (case p_autoSuspendTime p of
                               None \<Rightarrow> autoSuspendTime (currentSettings w) | Some v \<Rightarrow> v)),
               st_ignorePinned =
                 Some (case p_ignorePinned p of None \<Rightarrow> ignorePinned (currentSettings w)
                       | Some v \<Rightarrow> v),
               st_ignoreAudio =
                 Some (case p_ignoreAudio p of None \<Rightarrow> ignoreAudio (currentSettings w)
                       | Some v \<Rightarrow> v),
               st_ignoreActive =
                 Some (case p_ignoreActive p of None \<Rightarrow> ignoreActive (currentSettings w)
                       | Some v \<Rightarrow> v),
               st_urlWhitelist =
                 Some (case p_urlWhitelist p of None \<Rightarrow> urlWhitelist (currentSettings w)
                       | Some v \<Rightarrow> v)\<rparr>)
   \<and> 0 < autoSuspendTime (currentSettings (snd (loadSettings h' (snd (saveSettings h p (s, w))))))
   \<and> (p_autoSuspendTime p = Some (- 5) \<longrightarrow>
        autoSuspendTime (currentSettings (snd (snd (saveSettings h p (s, w))))) = - 5
        \<and> thresholdMs_of (currentSettings (snd (snd (saveSettings h p (s, w))))) = - 300000
        \<and> (fails h (StorageSet SETTINGS) = None \<and> \<not> scanRunning s
             \<and> (case p_autoSuspend p of None \<Rightarrow> autoSuspend (currentSettings w) | Some v \<Rightarrow> v)
             \<longrightarrow> awaiting (fst (snd (saveSettings h p (s, w))))
                   = awaiting s @ [(- 300000, clock w)])
        \<and> (fails h (StorageSet SETTINGS) = None \<longrightarrow>
             autoSuspendTime (currentSettings (snd (loadSettings h' (snd (saveSettings h p (s, w))))))
               = 30))"
proof -
  let ?m = "merge_settings (currentSettings w) p"
  let ?r = "saveSettings h p (s, w)"
  have cur: "currentSettings (snd (snd ?r)) = ?m"
    by (simp add: saveSettings_def Let_def configureAlarm_keeps record_call_def split: option.splits)
  have sto: "storedSettings (snd (snd ?r)) = Some (stored_of ?m)"
    if "fails h (StorageSet SETTINGS) = None"
    using that by (simp add: saveSettings_def Let_def configureAlarm_keeps record_call_def)
  have five: "autoSuspendTime ?m = - 5" if "p_autoSuspendTime p = Some (- 5)"
    using that by (simp add: merge_settings_def or_else_def)
  have load: "autoSuspendTime (currentSettings (snd (loadSettings h' (snd ?r)))) = 30"
    if "p_autoSuspendTime p = Some (- 5)" and "fails h (StorageSet SETTINGS) = None"
  proof -
    have "autoSuspendTime (settings_from_storage (Some (stored_of ?m))) = 30"
      using five [OF that(1)]
      by (simp add: settings_from_storage_def stored_of_def or_else_def is_number_def num_of_def
          DEFAULT_SETTINGS_def)
    with loadSettings_current [of h' "fst (snd ?r)" "snd (snd ?r)"] sto [OF that(2)]
    show ?thesis
      by (simp add: DEFAULT_SETTINGS_def split: option.splits)
  qed
  have wait: "awaiting (fst (snd ?r)) = awaiting s @ [(- 300000, clock w)]"
    if "p_autoSuspendTime p = Some (- 5)" and "fails h (StorageSet SETTINGS) = None"
      and "\<not> scanRunning s"
      and "case p_autoSuspend p of None \<Rightarrow> autoSuspend (currentSettings w) | Some v \<Rightarrow> v"
  proof -
    from that(4) have "autoSuspend ?m"
      by (simp add: merge_settings_def or_else_def)
    with that(2,3) five [OF that(1)] show ?thesis
      by (simp add: saveSettings_def Let_def configureAlarm_def runInactivityScan.simps
          alarms_clear_keeps thresholdMs_of_def chrome_alarms_clear_def record_call_def)
  qed
  have m: "?m = \<lparr>autoSuspend =
          (case p_autoSuspend p of None \<Rightarrow> autoSuspend (currentSettings w) | Some v \<Rightarrow> v),
        autoSuspendTime =
          (case p_autoSuspendTime p of None \<Rightarrow> autoSuspendTime (currentSettings w) | Some v \<Rightarrow> v),
        ignorePinned =
          (case p_ignorePinned p of None \<Rightarrow> ignorePinned (currentSettings w) | Some v \<Rightarrow> v),
        ignoreAudio =
          (case p_ignoreAudio p of None \<Rightarrow> ignoreAudio (currentSettings w) | Some v \<Rightarrow> v),
        ignoreActive =
          (case p_ignoreActive p of None \<Rightarrow> ignoreActive (currentSettings w) | Some v \<Rightarrow> v),
        urlWhitelist =
          (case p_urlWhitelist p of None \<Rightarrow> urlWhitelist (currentSettings w) | Some v \<Rightarrow> v)\<rparr>"
    by (simp add: merge_settings_def or_else_def)
  have pos: "0 < autoSuspendTime (currentSettings (snd (loadSettings h' (snd ?r))))"
    by (rule loadSettings_timeout_positive)
  have thr: "thresholdMs_of (currentSettings (snd (snd ?r))) = - 300000"
    if "p_autoSuspendTime p = Some (- 5)"
    using five [OF that] by (simp add: cur thresholdMs_of_def)
  show ?thesis
  proof (intro conjI impI)
    show "currentSettings (snd (snd ?r)) = \<lparr>autoSuspend =
          (case p_autoSuspend p of None \<Rightarrow> autoSuspend (currentSettings w) | Some v \<Rightarrow> v),
        autoSuspendTime =
          (case p_autoSuspendTime p of None \<Rightarrow> autoSuspendTime (currentSettings w) | Some v \<Rightarrow> v),
        ignorePinned =
          (case p_ignorePinned p of None \<Rightarrow> ignorePinned (currentSettings w) | Some v \<Rightarrow> v),
        ignoreAudio =
          (case p_ignoreAudio p of None \<Rightarrow> ignoreAudio (currentSettings w) | Some v \<Rightarrow> v),
        ignoreActive =
          (case p_ignoreActive p of None \<Rightarrow> ignoreActive (currentSettings w) | Some v \<Rightarrow> v),
        urlWhitelist =
          (case p_urlWhitelist p of None \<Rightarrow> urlWhitelist (currentSettings w) | Some v \<Rightarrow> v)\<rparr>"
      using cur m by simp
  qed (use sto m pos five cur thr wait load in \<open>simp_all add: stored_of_def\<close>)
qed

theorem saveSettings_merges_verbatim_witness:
  "fails quiet_host (StorageSet SETTINGS) = None
   \<and> p_autoSuspendTime partial_update = Some (- 5)
   \<and> \<not> scanRunning idle
   \<and> currentSettings (snd (snd (saveSettings quiet_host partial_update (idle, example_world))))
       = \<lparr>autoSuspend = True, autoSuspendTime = - 5, ignorePinned = False, ignoreAudio = True,
          ignoreActive = True, urlWhitelist = ''*.example.org/*''\<rparr>
   \<and> storedSettings (snd (snd (saveSettings quiet_host partial_update (idle, example_world))))
       = Some \<lparr>st_autoSuspend = Some True, st_autoSuspendTime = Some (JNum (- 5)),
               st_ignorePinned = Some False, st_ignoreAudio = Some True,
               st_ignoreActive = Some True, st_urlWhitelist = Some ''*.example.org/*''\<rparr>
   \<and> awaiting (fst (snd (saveSettings quiet_host partial_update (idle, example_world))))
       = [(- 300000, 2000000)]
   \<and> autoSuspendTime (currentSettings (snd (loadSettings quiet_host
         (snd (saveSettings quiet_host partial_update (idle, example_world)))))) = 30"
proof -
  have h: "fails quiet_host (StorageSet SETTINGS) = None"
    by (simp add: quiet_host_def)
  have p: "p_autoSuspendTime partial_update = Some (- 5)" "p_autoSuspend partial_update = None"
    "p_ignorePinned partial_update = Some False" "p_ignoreAudio partial_update = None"
    "p_ignoreActive partial_update = None"
    "p_urlWhitelist partial_update = Some ''*.example.org/*''"
    by (simp_all add: partial_update_def)
  have w: "currentSettings example_world = DEFAULT_SETTINGS" "clock example_world = 2000000"
    by (simp_all add: example_world_def)
  have i: "\<not> scanRunning idle" "awaiting idle = []"
    by (simp_all add: idle_def)
  from saveSettings_merges_verbatim [of quiet_host partial_update idle example_world quiet_host]
    h p w i
  show ?thesis by (simp add: DEFAULT_SETTINGS_def)
qed

lemma inv_idle: "scan_inv idle"
  by (simp add: scan_inv_def idle_def)

lemma inv_runInactivityScan: "scan_inv s \<Longrightarrow> scan_inv (fst (runInactivityScan (s, w)))"
  by (subst runInactivityScan.simps) (auto simp: scan_inv_def Let_def split: if_splits)

lemma inv_scan_finally:
  "awaiting s = [] \<Longrightarrow> scan_inv (fst (scan_finally (s, w)))"
proof (cases "scanRerunRequested s")
  case True
  assume a: "awaiting s = []"
  have "scan_inv (s\<lparr>scanRunning := False, scanRerunRequested := False\<rparr>)"
    using a by (simp add: scan_inv_def)
  from inv_runInactivityScan [OF this, of w] True show ?thesis
    by (simp add: scan_finally_def Let_def)
next
  case False
  assume "awaiting s = []"
  with False show ?thesis
    by (simp add: scan_finally_def Let_def scan_inv_def)
qed

lemma inv_scan_resume: "scan_inv s \<Longrightarrow> scan_inv (fst (scan_resume h (s, w)))"
proof (cases "awaiting s")
  case Nil
  assume "scan_inv s"
  with Nil show ?thesis by (simp add: scan_resume_def)
next
  case (Cons a rest)
  assume "scan_inv s"
  with Cons have "rest = []"
    by (simp add: scan_inv_def split: if_splits)
  with Cons inv_scan_finally [of "s\<lparr>awaiting := []\<rparr>"] show ?thesis
    by (cases a) (simp add: scan_resume_def)
qed

lemma inv_configureAlarm: "scan_inv s \<Longrightarrow> scan_inv (fst (configureAlarm (s, w)))"
  by (simp add: configureAlarm_def Let_def inv_runInactivityScan)

lemma inv_step: "scan_inv (fst sw) \<Longrightarrow> scan_inv (fst (step h e sw))"
proof (cases sw)
  case (Pair s w)
  assume "scan_inv (fst sw)"
  with Pair have s: "scan_inv s" by simp
  show ?thesis
  proof (cases e)
    case Alarm
    with Pair s show ?thesis by (simp add: onAlarm_def inv_runInactivityScan)
  next
    case (Activated i)
    with Pair s show ?thesis by (simp add: onActivated_def Let_def inv_runInactivityScan)
  next
    case Configure
    with Pair s show ?thesis by (simp add: inv_configureAlarm)
  next
    case (Save p)
    with Pair s show ?thesis
      by (simp add: saveSettings_def Let_def inv_configureAlarm split: option.splits)
  next
    case Load
    with Pair s show ?thesis
      by (simp add: loadSettings_def inv_configureAlarm split: option.splits)
  next
    case (Other f)
    with Pair s show ?thesis by simp
  next
    case Resume
    with Pair s show ?thesis by (simp add: inv_scan_resume)
  qed
qed

lemma inv_run: "scan_inv (fst sw) \<Longrightarrow> scan_inv (fst (run h es sw))"
  by (induction es arbitrary: sw) (simp_all add: inv_step)

lemma run_append: "run h (xs @ ys) sw = run h ys (run h xs sw)"
  by (induction xs arbitrary: sw) simp_all

lemma alarms_while_running:
  "scanRunning s \<Longrightarrow>
   run h (replicate n Alarm) (s, w) = (if n = 0 then s else s\<lparr>scanRerunRequested := True\<rparr>, w)"
proof (induction n arbitrary: s)
  case 0
  show ?case by simp
next
  case (Suc n)
  from Suc.prems have "run h (replicate (Suc n) Alarm) (s, w)
      = run h (replicate n Alarm) (s\<lparr>scanRerunRequested := True\<rparr>, w)"
    by (simp add: onAlarm_def runInactivityScan.simps)
  also from Suc.prems have "\<dots> = (s\<lparr>scanRerunRequested := True\<rparr>, w)"
    by (simp add: Suc.IH)
  finally show ?case by simp
qed

lemma call_when_idle:
  assumes "autoSuspend (currentSettings w)" and "thresholdMs_of (currentSettings w) \<noteq> 0"
  shows "runInactivityScan (idle, w)
           = (\<lparr>scanRunning = True, scanRerunRequested = False,
               awaiting = [(thresholdMs_of (currentSettings w), clock w)]\<rparr>,
              chrome_alarms_clear w)"
  using assms by (simp add: runInactivityScan.simps idle_def Let_def alarms_clear_keeps)

lemma scan_try_when_waiting:
  assumes "autoSuspend (currentSettings w)" and "thresholdMs_of (currentSettings w) \<noteq> 0"
  shows "scan_try h w
           = scan_after_query h (thresholdMs_of (currentSettings w)) (clock w) (chrome_alarms_clear w)"
  using assms by (simp add: scan_try_def Let_def alarms_clear_keeps)

lemma resume_without_rerun:
  assumes "autoSuspend (currentSettings w)" and "thresholdMs_of (currentSettings w) \<noteq> 0"
  shows "scan_resume h (\<lparr>scanRunning = True, scanRerunRequested = False,
                          awaiting = [(thresholdMs_of (currentSettings w), clock w)]\<rparr>,
                        chrome_alarms_clear w)
           = (idle, scan_try h w)"
  by (simp add: scan_resume_def scan_finally_def idle_def scan_try_when_waiting [OF assms])

lemma resume_with_rerun:
  assumes "autoSuspend (currentSettings w)" and "thresholdMs_of (currentSettings w) \<noteq> 0"
  shows "scan_resume h (\<lparr>scanRunning = True, scanRerunRequested = True,
                          awaiting = [(thresholdMs_of (currentSettings w), clock w)]\<rparr>,
                        chrome_alarms_clear w)
           = (\<lparr>scanRunning = True, scanRerunRequested = False,
               awaiting = [(thresholdMs_of (currentSettings w), clock w)]\<rparr>,
              chrome_alarms_clear (scan_try h w))"
proof -
  have "scan_resume h (\<lparr>scanRunning = True, scanRerunRequested = True,
                          awaiting = [(thresholdMs_of (currentSettings w), clock w)]\<rparr>,
                        chrome_alarms_clear w)
          = runInactivityScan (idle, scan_try h w)"
    by (simp add: scan_resume_def scan_finally_def idle_def scan_try_when_waiting [OF assms])
  also have "\<dots> = (\<lparr>scanRunning = True, scanRerunRequested = False,
               awaiting = [(thresholdMs_of (currentSettings w), clock w)]\<rparr>,
              chrome_alarms_clear (scan_try h w))"
    using call_when_idle [of "scan_try h w"] assms by simp
  finally show ?thesis .
qed

text \<open>
  C5. Whatever handlers run and in whatever order, starting from the script's initial
  state, at most one activation of \<open>runInactivityScan\<close> is under way at any moment, and
  \<open>scanRunning\<close> is set exactly while one is. A call that finds \<open>scanRunning\<close> set only
  sets \<open>scanRerunRequested\<close> and returns, the world being as it was. With auto-suspend on
  and a threshold other than zero, the alarm firing in the idle state starts a scan that
  waits for the browser with \<open>scanRunning\<close> set; if the alarm fires \<open>n > 0\<close> more times
  before the browser answers, the end of the scan starts exactly one more, whatever \<open>n\<close>
  is, and after that one the scheduler is idle again: two passes in all, each of which
  clears the alarm once and asks for the tabs once. With no further firing there is one
  pass.
\<close>

theorem scan_never_overlaps:
  "length (awaiting (fst (run h es (idle, w)))) \<le> 1
   \<and> scanRunning (fst (run h es (idle, w))) = (awaiting (fst (run h es (idle, w))) \<noteq> [])
   \<and> (scanRunning s \<longrightarrow> runInactivityScan (s, w) = (s\<lparr>scanRerunRequested := True\<rparr>, w))
   \<and> (autoSuspend (currentSettings w) \<and> autoSuspendTime (currentSettings w) \<noteq> 0 \<longrightarrow>
        run h [Alarm] (idle, w)
          = (\<lparr>scanRunning = True, scanRerunRequested = False,
              awaiting = [(autoSuspendTime (currentSettings w) * 60 * 1000, clock w)]\<rparr>,
             chrome_alarms_clear w)
        \<and> run h [Alarm, Resume] (idle, w) = (idle, scan_try h w)
        \<and> count_list (calls (scan_try h w)) TabsQuery = count_list (calls w) TabsQuery + 1
        \<and> (0 < n \<longrightarrow>
             run h (Alarm # replicate n Alarm @ [Resume]) (idle, w)
               = (\<lparr>scanRunning = True, scanRerunRequested = False,
                   awaiting = [(autoSuspendTime (currentSettings w) * 60 * 1000, clock w)]\<rparr>,
                  chrome_alarms_clear (scan_try h w))
             \<and> run h (Alarm # replicate n Alarm @ [Resume, Resume]) (idle, w)
                 = (idle, scan_try h (scan_try h w))
             \<and> count_list (calls (scan_try h (scan_try h w))) AlarmsClear
                 = count_list (calls w) AlarmsClear + 2
             \<and> count_list (calls (scan_try h (scan_try h w))) TabsQuery
                 = count_list (calls w) TabsQuery + 2))"
proof (intro conjI impI)
  have inv: "scan_inv (fst (run h es (idle, w)))"
    by (rule inv_run) (simp add: inv_idle)
  then show "length (awaiting (fst (run h es (idle, w)))) \<le> 1"
    by (simp add: scan_inv_def split: if_splits)
  from inv show "scanRunning (fst (run h es (idle, w))) = (awaiting (fst (run h es (idle, w))) \<noteq> [])"
    by (auto simp: scan_inv_def split: if_splits)
next
  assume "scanRunning s"
  then show "runInactivityScan (s, w) = (s\<lparr>scanRerunRequested := True\<rparr>, w)"
    by (simp add: runInactivityScan.simps)
next
  assume a: "autoSuspend (currentSettings w) \<and> autoSuspendTime (currentSettings w) \<noteq> 0"
  then have on: "autoSuspend (currentSettings w)" and thr: "thresholdMs_of (currentSettings w) \<noteq> 0"
    and t: "thresholdMs_of (currentSettings w) = autoSuspendTime (currentSettings w) * 60 * 1000"
    by (simp_all add: thresholdMs_of_def)
  let ?wait = "\<lparr>scanRunning = True, scanRerunRequested = False,
                 awaiting = [(autoSuspendTime (currentSettings w) * 60 * 1000, clock w)]\<rparr>"
  show first: "run h [Alarm] (idle, w) = (?wait, chrome_alarms_clear w)"
    using call_when_idle [OF on thr] by (simp add: onAlarm_def t)
  show "run h [Alarm, Resume] (idle, w) = (idle, scan_try h w)"
    using call_when_idle [OF on thr] resume_without_rerun [OF on thr, of h]
    by (simp add: onAlarm_def)
  show "count_list (calls (scan_try h w)) TabsQuery = count_list (calls w) TabsQuery + 1"
    using on thr by (simp add: scan_try_queries)
  {
    assume n: "0 < n"
    have many: "run h (Alarm # replicate n Alarm) (idle, w)
                  = (?wait\<lparr>scanRerunRequested := True\<rparr>, chrome_alarms_clear w)"
      using first n alarms_while_running [of ?wait h n "chrome_alarms_clear w"] by simp
    have "run h (Alarm # replicate n Alarm @ [Resume]) (idle, w)
            = run h [Resume] (run h (Alarm # replicate n Alarm) (idle, w))"
      using run_append [of h "Alarm # replicate n Alarm" "[Resume]" "(idle, w)"] by simp
    also have "\<dots> = (?wait, chrome_alarms_clear (scan_try h w))"
      unfolding many using resume_with_rerun [OF on thr, of h] by (simp add: t)
    finally show one: "run h (Alarm # replicate n Alarm @ [Resume]) (idle, w)
                         = (?wait, chrome_alarms_clear (scan_try h w))" .
    have on': "autoSuspend (currentSettings (scan_try h w))"
      and thr': "thresholdMs_of (currentSettings (scan_try h w)) \<noteq> 0"
      using on thr by simp_all
    have "run h (Alarm # replicate n Alarm @ [Resume, Resume]) (idle, w)
            = run h [Resume] (run h (Alarm # replicate n Alarm @ [Resume]) (idle, w))"
      using run_append [of h "Alarm # replicate n Alarm @ [Resume]" "[Resume]" "(idle, w)"]
      by simp
    also have "\<dots> = (idle, scan_try h (scan_try h w))"
      unfolding one using resume_without_rerun [OF on' thr', of h] by (simp add: t)
    finally show "run h (Alarm # replicate n Alarm @ [Resume, Resume]) (idle, w)
                    = (idle, scan_try h (scan_try h w))" .
    show "count_list (calls (scan_try h (scan_try h w))) AlarmsClear
            = count_list (calls w) AlarmsClear + 2"
      by (simp add: scan_try_clears)
    show "count_list (calls (scan_try h (scan_try h w))) TabsQuery
            = count_list (calls w) TabsQuery + 2"
      using on thr by (simp add: scan_try_queries)
  }
qed

theorem scan_never_overlaps_witness:
  "length (awaiting (fst (run quiet_host
       [Alarm, Activated 7, Save partial_update, Alarm, Resume, Configure, Load, Alarm]
       (idle, example_world)))) \<le> 1
   \<and> scanRunning waiting
   \<and> runInactivityScan (waiting, example_world)
       = (\<lparr>scanRunning = True, scanRerunRequested = True, awaiting = [(1800000, 2000000)]\<rparr>,
          example_world)
   \<and> autoSuspend (currentSettings example_world)
   \<and> autoSuspendTime (currentSettings example_world) \<noteq> 0
   \<and> run quiet_host [Alarm] (idle, example_world) = (waiting, chrome_alarms_clear example_world)
   \<and> run quiet_host [Alarm, Resume] (idle, example_world) = (idle, scan_try quiet_host example_world)
   \<and> run quiet_host (Alarm # replicate 5 Alarm @ [Resume]) (idle, example_world)
       = (waiting, chrome_alarms_clear (scan_try quiet_host example_world))
   \<and> run quiet_host (Alarm # replicate 5 Alarm @ [Resume, Resume]) (idle, example_world)
       = (idle, scan_try quiet_host (scan_try quiet_host example_world))
   \<and> count_list (calls (scan_try quiet_host (scan_try quiet_host example_world))) AlarmsClear = 2
   \<and> count_list (calls (scan_try quiet_host (scan_try quiet_host example_world))) TabsQuery = 2"
proof -
  have s: "scanRunning waiting"
    "waiting\<lparr>scanRerunRequested := True\<rparr>
       = \<lparr>scanRunning = True, scanRerunRequested = True, awaiting = [(1800000, 2000000)]\<rparr>"
    by (simp_all add: waiting_def)
  have w: "autoSuspend (currentSettings example_world)"
    "autoSuspendTime (currentSettings example_world) = 30" "clock example_world = 2000000"
    "calls example_world = []"
    by (simp_all add: example_world_def DEFAULT_SETTINGS_def)
  have n: "(0 :: nat) < 5" by simp
  from scan_never_overlaps
    [where h = quiet_host and w = example_world and s = waiting and n = 5
       and es = "[Alarm, Activated 7, Save partial_update, Alarm, Resume, Configure, Load, Alarm]"]
    s w n
  show ?thesis by (simp del: run.simps add: waiting_def)
qed

lemma contribution_cong:
  "am (tab_id t) = am' (tab_id t) \<Longrightarrow>
   contribution h s am thr now t = contribution h s am' thr now t"
  by (simp add: contribution_def last_activity_def)

lemma scan_tab_contribution:
  assumes "scan_tab h thr now t nd w = (Some nd1, w1)"
  shows "nd1 = (case contribution h (currentSettings w) (lastActivityMap w) thr now t of
                  None \<Rightarrow> nd | Some c \<Rightarrow> min_delay nd c)"
    and "\<forall>j. j \<noteq> tab_id t \<longrightarrow> lastActivityMap w1 j = lastActivityMap w j"
proof -
  have keep: "lastActivityMap (snd (suspendTab h i Auto w')) = lastActivityMap w'" for i w'
    using frame_suspendTab [of w' h i Auto] by (simp add: frame_def)
  from assms show "nd1 = (case contribution h (currentSettings w) (lastActivityMap w) thr now t of
                  None \<Rightarrow> nd | Some c \<Rightarrow> min_delay nd c)"
    by (auto simp: scan_tab_def contribution_def last_activity_def activity_of_def Let_def
        split: if_splits option.splits bool.splits)
  from assms show "\<forall>j. j \<noteq> tab_id t \<longrightarrow> lastActivityMap w1 j = lastActivityMap w j"
    by (auto simp: scan_tab_def Let_def keep split: if_splits option.splits bool.splits)
qed

lemma map_filter_cong_set:
  "(\<And>x. x \<in> set xs \<Longrightarrow> f x = g x) \<Longrightarrow> List.map_filter f xs = List.map_filter g xs"
  by (induction xs) (auto split: option.splits)

lemma scan_tabs_contributions:
  assumes "distinct (map tab_id ts)"
    and "scan_tabs h thr now ts nd w = (Some nd', w')"
  shows "nd' = foldl min_delay nd (contributions h (currentSettings w) (lastActivityMap w) thr now ts)"
  using assms
proof (induction ts arbitrary: nd w)
  case Nil
  then show ?case by (simp add: contributions_def)
next
  case (Cons t ts)
  obtain r w1 where r: "scan_tab h thr now t nd w = (r, w1)"
    by (cases "scan_tab h thr now t nd w")
  with Cons.prems(2) obtain nd1 where nd1: "r = Some nd1"
    by (cases r) auto
  from r nd1 Cons.prems(2) have rest: "scan_tabs h thr now ts nd1 w1 = (Some nd', w')"
    by simp
  from Cons.prems(1) have d: "distinct (map tab_id ts)"
    and fresh: "\<And>u. u \<in> set ts \<Longrightarrow> tab_id u \<noteq> tab_id t"
    by (auto simp: image_iff)
  note step = scan_tab_contribution [OF r [unfolded nd1]]
  have settings: "currentSettings w1 = currentSettings w"
    using scan_frame_scan_tab [of w h thr now t nd] r by (simp add: scan_frame_def)
  have same: "contributions h (currentSettings w1) (lastActivityMap w1) thr now ts
                = contributions h (currentSettings w) (lastActivityMap w) thr now ts"
    unfolding contributions_def settings
    by (rule map_filter_cong_set, rule contribution_cong) (simp add: step(2) fresh)
  from Cons.IH [OF d rest] have "nd' = foldl min_delay nd1
        (contributions h (currentSettings w) (lastActivityMap w) thr now ts)"
    by (simp only: same)
  with step(1) show ?case
    by (simp add: contributions_def split: option.splits)
qed

lemma foldl_min_delay_Some:
  "foldl min_delay (Some a) cs = Some (Min (insert a (set cs)))"
proof (induction cs arbitrary: a)
  case Nil
  show ?case by simp
next
  case (Cons c cs)
  have "Min (insert (min a c) (set cs)) = Min (insert a (insert c (set cs)))"
    by (cases "cs = []") (simp_all add: min.assoc)
  with Cons.IH [of "min a c"] show ?case
    by (simp add: min_delay_def)
qed

lemma foldl_min_delay_None: "foldl min_delay None cs = min_contribution cs"
  by (cases cs) (simp_all add: min_contribution_def min_delay_def foldl_min_delay_Some)

lemma next_wake_clamped:
  "5000 \<le> next_wake thr nd" "next_wake thr nd \<le> max thr 900000"
  by (simp_all add: next_wake_def Let_def)

text \<open>
  C6. Whenever the scan sets the alarm, the delay from now is at least 5 seconds and at
  most the larger of the threshold and 15 minutes; with a timeout of 30 minutes it is at
  most 30 minutes. The live tabs having distinct ids, the delay is the least contribution
  of the tabs (the time left for a tab that is not yet due, the whole threshold for a
  tab that is due and not eligible), or five minutes when no tab contributes, raised to
  5 seconds and cut at the larger of the threshold and 15 minutes. Numbers are exact
  here; the script's doubles agree with them on whole numbers of milliseconds.
\<close>

theorem next_wake_delay:
  assumes "alarm (scan_try h w) = Some t"
  shows "5000 \<le> t - clock w
         \<and> t - clock w \<le> max (autoSuspendTime (currentSettings w) * 60 * 1000) (15 * 60 * 1000)
         \<and> (autoSuspendTime (currentSettings w) = 30 \<longrightarrow> t - clock w \<le> 30 * 60 * 1000)
         \<and> (distinct (map tab_id (tabs w)) \<longrightarrow>
              t - clock w =
                max 5000
                  (min (case contributions h (currentSettings w) (lastActivityMap w)
                               (autoSuspendTime (currentSettings w) * 60 * 1000) (clock w) (tabs w) of
                          [] \<Rightarrow> 5 * 60 * 1000
                        | c # cs \<Rightarrow> Min (set (c # cs)))
                     (max (autoSuspendTime (currentSettings w) * 60 * 1000) (15 * 60 * 1000))))"
proof -
  let ?thr = "thresholdMs_of (currentSettings w)"
  let ?w1 = "chrome_alarms_clear w"
  have w1: "currentSettings ?w1 = currentSettings w" "clock ?w1 = clock w" "alarm ?w1 = None"
    "tabs ?w1 = tabs w" "lastActivityMap ?w1 = lastActivityMap w"
    by (simp_all add: chrome_alarms_clear_def record_call_def)
  obtain q w2 where q: "chrome_tabs_query h ?w1 = (q, w2)"
    by (cases "chrome_tabs_query h ?w1")
  then have w2: "currentSettings w2 = currentSettings w" "clock w2 = clock w" "alarm w2 = None"
    "lastActivityMap w2 = lastActivityMap w" "q = Inr (tabs w) \<or> (\<exists>m. q = Inl m)"
    using w1 by (auto simp: chrome_tabs_query_def record_call_def split: option.splits)
  obtain r w3 where r: "scan_tabs h ?thr (clock w) (tabs w) None w2 = (r, w3)"
    by (cases "scan_tabs h ?thr (clock w) (tabs w) None w2")
  have w3: "clock w3 = clock w" "alarm w3 = None"
    using scan_frame_scan_tabs [of w2 h ?thr "clock w" "tabs w" None] r w2
    by (simp_all add: scan_frame_def)
  from assms q r w1 w2 w3 obtain nd where nd: "r = Some nd"
    and t: "t = clock w + next_wake ?thr nd"
    by (auto simp: scan_try_def scan_after_query_def Let_def chrome_alarms_create_def
        record_call_def split: if_splits sum.splits option.splits)
  have "nd = min_contribution
                (contributions h (currentSettings w) (lastActivityMap w) ?thr (clock w) (tabs w))"
    if "distinct (map tab_id (tabs w))"
    using scan_tabs_contributions [OF that r [unfolded nd]] w2
    by (simp add: foldl_min_delay_None)
  then have eq: "next_wake ?thr nd =
        max 5000
          (min (case contributions h (currentSettings w) (lastActivityMap w) ?thr (clock w) (tabs w) of
                  [] \<Rightarrow> 5 * 60 * 1000
                | c # cs \<Rightarrow> Min (set (c # cs)))
             (max ?thr (15 * 60 * 1000)))"
    if "distinct (map tab_id (tabs w))"
    using that
    by (simp add: next_wake_def min_contribution_def Let_def split: list.splits)
  from t next_wake_clamped [of ?thr nd] eq show ?thesis
    by (auto simp: thresholdMs_of_def)
qed

lemmas example_defs = quiet_host_def example_tab_def example_world_def idle_def

lemmas scan_defs =
  scan_try_def scan_after_query_def chrome_alarms_clear_def record_call_def Let_def
  DEFAULT_SETTINGS_def thresholdMs_of_def chrome_tabs_query_def scan_tab_def
  isExtensionSuspendedPage_def starts_with_def runtime_getURL_def activity_of_def
  min_delay_def next_wake_def chrome_alarms_create_def eligibleForSuspend_def

lemma scan_example: "alarm (scan_try quiet_host example_world) = Some 2800000"
  by (simp add: scan_defs example_defs)

lemma scan_examples:
  "alarm (scan_try quiet_host two_tab_world) = Some 2800000"
  "alarm (scan_try quiet_host due_pinned_world) = Some 3800000"
  "alarm (scan_try quiet_host nearly_due_world) = Some 2005000"
  "alarm (scan_try quiet_host no_tab_world) = Some 2300000"
  by (simp_all add: scan_defs example_defs two_tab_world_def due_pinned_world_def
      nearly_due_world_def no_tab_world_def pinned_old_tab_def)

lemmas contribution_defs =
  contributions_def contribution_def last_activity_def eligibleForSuspend_def
  isExtensionSuspendedPage_def starts_with_def runtime_getURL_def DEFAULT_SETTINGS_def

theorem next_wake_delay_witness:
  "alarm (scan_try quiet_host two_tab_world) = Some 2800000
   \<and> contributions quiet_host (currentSettings two_tab_world) (lastActivityMap two_tab_world)
        (30 * 60 * 1000) (clock two_tab_world) (tabs two_tab_world) = [1800000, 800000]
   \<and> 2800000 - clock two_tab_world = 800000
   \<and> alarm (scan_try quiet_host due_pinned_world) = Some 3800000
   \<and> contributions quiet_host (currentSettings due_pinned_world) (lastActivityMap due_pinned_world)
        (30 * 60 * 1000) (clock due_pinned_world) (tabs due_pinned_world) = [1800000]
   \<and> 3800000 - clock due_pinned_world = 30 * 60 * 1000
   \<and> alarm (scan_try quiet_host nearly_due_world) = Some 2005000
   \<and> contributions quiet_host (currentSettings nearly_due_world) (lastActivityMap nearly_due_world)
        (30 * 60 * 1000) (clock nearly_due_world) (tabs nearly_due_world) = [1000]
   \<and> 2005000 - clock nearly_due_world = 5000
   \<and> alarm (scan_try quiet_host no_tab_world) = Some 2300000
   \<and> contributions quiet_host (currentSettings no_tab_world) (lastActivityMap no_tab_world)
        (30 * 60 * 1000) (clock no_tab_world) (tabs no_tab_world) = []
   \<and> 2300000 - clock no_tab_world = 5 * 60 * 1000"
proof -
  have c: "contributions quiet_host (currentSettings two_tab_world) (lastActivityMap two_tab_world)
        (30 * 60 * 1000) (clock two_tab_world) (tabs two_tab_world) = [1800000, 800000]"
    "contributions quiet_host (currentSettings due_pinned_world) (lastActivityMap due_pinned_world)
        (30 * 60 * 1000) (clock due_pinned_world) (tabs due_pinned_world) = [1800000]"
    "contributions quiet_host (currentSettings nearly_due_world) (lastActivityMap nearly_due_world)
        (30 * 60 * 1000) (clock nearly_due_world) (tabs nearly_due_world) = [1000]"
    "contributions quiet_host (currentSettings no_tab_world) (lastActivityMap no_tab_world)
        (30 * 60 * 1000) (clock no_tab_world) (tabs no_tab_world) = []"
    by (simp_all add: contribution_defs example_defs two_tab_world_def due_pinned_world_def
        nearly_due_world_def no_tab_world_def pinned_old_tab_def)
  have k: "clock two_tab_world = 2000000" "clock due_pinned_world = 2000000"
    "clock nearly_due_world = 2000000" "clock no_tab_world = 2000000"
    by (simp_all add: example_world_def two_tab_world_def due_pinned_world_def
        nearly_due_world_def no_tab_world_def)
  from next_wake_delay [OF scan_examples(1)] next_wake_delay [OF scan_examples(2)]
    next_wake_delay [OF scan_examples(3)] next_wake_delay [OF scan_examples(4)]
    scan_examples c k
  show ?thesis by simp
qed

subsection \<open>Suspending and restoring\<close>

lemmas core_defs =
  suspendTab_def unsuspendTab_def chrome_tabs_get_def chrome_tabs_create_def chrome_tabs_move_def chrome_tabs_group_def
  chrome_tabs_remove_def chrome_tabs_update_def tab_call_error_def find_tab_def record_call_def change_tab_def
  fresh_tab_id_def persistSuspendedCache_def eligibleForSuspend_def isWhitelisted_def
  whitelistEntries_def trim_def isExtensionSuspendedPage_def starts_with_def
  runtime_getURL_def baseRecord_def replace_rest_def navigate_fallback_def
  getSuspendedUrl_def DEFAULT_SETTINGS_def Let_def

lemma find_tab_log [simp]: "find_tab (record_call c w) i = find_tab w i"
  by (simp add: find_tab_def record_call_def)

lemma find_tab_cache [simp]: "find_tab (w\<lparr>suspendedTabsCache := m\<rparr>) i = find_tab w i"
  by (simp add: find_tab_def)

lemma find_tab_persist [simp]: "find_tab (persistSuspendedCache h w) i = find_tab w i"
  by (simp add: find_tab_def persistSuspendedCache_def record_call_def split: option.splits)

lemma tab_call_error_persist [simp]:
  "tab_call_error h c i (persistSuspendedCache h' (w\<lparr>suspendedTabsCache := m\<rparr>))
     = tab_call_error h c i w"
  by (simp add: tab_call_error_def split: option.splits)

lemma persist_fields [simp]:
  "suspendedTabsCache (persistSuspendedCache h w) = suspendedTabsCache w"
  "tabs (persistSuspendedCache h w) = tabs w"
  "lastActivityMap (persistSuspendedCache h w) = lastActivityMap w"
  "calls (persistSuspendedCache h w) = calls w @ [StorageSet SUSPENDED_TABS]"
  "fails h (StorageSet SUSPENDED_TABS) = None \<Longrightarrow>
     storedTabs (persistSuspendedCache h w) = suspendedTabsCache w"
  by (simp_all add: persistSuspendedCache_def record_call_def split: option.splits)

lemma tabs_update_result:
  "tab_call_error h (TabsUpdate i u) i w = Some m \<Longrightarrow>
     chrome_tabs_update h i u act pin w = (Some m, record_call (TabsUpdate i u) w)"
  "tab_call_error h (TabsUpdate i u) i w = None \<Longrightarrow>
     fst (chrome_tabs_update h i u act pin w) = None"
  by (simp_all add: chrome_tabs_update_def)

lemma tabs_update_fields [simp]:
  "suspendedTabsCache (snd (chrome_tabs_update h i u act pin w)) = suspendedTabsCache w"
  "storedTabs (snd (chrome_tabs_update h i u act pin w)) = storedTabs w"
  "calls (snd (chrome_tabs_update h i u act pin w)) = calls w @ [TabsUpdate i u]"
  by (simp_all add: chrome_tabs_update_def record_call_def change_tab_def split: option.splits)

text \<open>
  C8. When the tab has a record, \<open>unsuspendTab\<close> removes it from the registry, writes the
  registry to storage and only then calls \<open>chrome.tabs.update\<close>: these are its two calls
  to the browser, in this order, and storage holds the registry without the record when
  the write does not throw. When the update throws with message \<open>m\<close>, the answer is
  \<open>{success: false, error: m}\<close> and the world is the one after the deletion and the
  write: nothing is put back.
\<close>

theorem unsuspend_deletes_before_navigating:
  assumes "suspendedTabsCache w tabId = Some rec"
  shows "suspendedTabsCache (snd (unsuspendTab h tabId w)) = (suspendedTabsCache w)(tabId := None)
         \<and> calls (snd (unsuspendTab h tabId w))
             = calls w @ [StorageSet SUSPENDED_TABS, TabsUpdate tabId (rec_url rec)]
         \<and> (fails h (StorageSet SUSPENDED_TABS) = None \<longrightarrow>
              storedTabs (snd (unsuspendTab h tabId w)) = (suspendedTabsCache w)(tabId := None))
         \<and> (\<forall>m. tab_call_error h (TabsUpdate tabId (rec_url rec)) tabId w = Some m \<longrightarrow>
              unsuspendTab h tabId w
                = (resp_error m,
                   record_call (TabsUpdate tabId (rec_url rec))
                     (persistSuspendedCache h
                        (w\<lparr>suspendedTabsCache := (suspendedTabsCache w)(tabId := None)\<rparr>))))"
proof -
  let ?w2 = "persistSuspendedCache h (w\<lparr>suspendedTabsCache := (suspendedTabsCache w)(tabId := None)\<rparr>)"
  let ?act = "if rec_strategy rec = Some Replace then Some True else None"
  let ?pin = "if rec_strategy rec = Some Replace then Some (rec_pinned rec) else None"
  let ?up = "chrome_tabs_update h tabId (rec_url rec) ?act ?pin ?w2"
  have w': "snd (unsuspendTab h tabId w) = snd ?up"
    using assms by (simp add: unsuspendTab_def Let_def split: prod.splits option.splits)
  have thrown: "unsuspendTab h tabId w = (resp_error m, record_call (TabsUpdate tabId (rec_url rec)) ?w2)"
    if "tab_call_error h (TabsUpdate tabId (rec_url rec)) tabId w = Some m" for m
    using assms that
    by (simp add: unsuspendTab_def Let_def tabs_update_result(1) [where w = ?w2])
  show ?thesis
    unfolding w' using thrown by simp
qed

theorem unsuspend_deletes_before_navigating_witness:
  "suspendedTabsCache suspended_world 8 = Some example_record
   \<and> fails update_fails_host (StorageSet SUSPENDED_TABS) = None
   \<and> tab_call_error update_fails_host (TabsUpdate 8 (rec_url example_record)) 8 suspended_world
       = Some ''Tabs cannot be edited right now''
   \<and> fst (unsuspendTab update_fails_host 8 suspended_world)
       = resp_error ''Tabs cannot be edited right now''
   \<and> suspendedTabsCache (snd (unsuspendTab update_fails_host 8 suspended_world)) 8 = None
   \<and> storedTabs (snd (unsuspendTab update_fails_host 8 suspended_world)) 8 = None
   \<and> calls (snd (unsuspendTab update_fails_host 8 suspended_world))
       = [StorageSet SUSPENDED_TABS, TabsUpdate 8 ''https://example.com/'']"
proof -
  have r: "suspendedTabsCache suspended_world 8 = Some example_record"
    and c: "calls suspended_world = []"
    by (simp_all add: suspended_world_def example_world_def)
  have s: "fails update_fails_host (StorageSet SUSPENDED_TABS) = None"
    by (simp add: update_fails_host_def quiet_host_def)
  have e: "tab_call_error update_fails_host (TabsUpdate 8 (rec_url example_record)) 8 suspended_world
             = Some ''Tabs cannot be edited right now''"
    by (simp add: tab_call_error_def update_fails_host_def quiet_host_def)
  have u: "rec_url example_record = ''https://example.com/''"
    by (simp add: example_record_def)
  from unsuspend_deletes_before_navigating [OF r, of update_fails_host] r c s e u
  show ?thesis by (simp add: record_call_def)
qed

text \<open>
  C4. A registry is a map, so an id has at most one record. Closing the tab removes its
  record and leaves no activity time to be read for it (the entry itself is deleted
  unless it was \<open>0\<close>), and \<open>getSuspendedTabData\<close> then answers nothing. A placeholder
  that navigates to an address outside the suspended page loses its record as well, and
  \<open>getSuspendedTabData\<close> answers nothing; its activity entry is kept, the tab being
  still open.
\<close>

theorem removal_deletes_record:
  "suspendedTabsCache (onRemoved h tabId w) = (suspendedTabsCache w)(tabId := None)
   \<and> activity_of (onRemoved h tabId w) tabId = 0
   \<and> (lastActivityMap w tabId \<noteq> Some 0 \<longrightarrow> lastActivityMap (onRemoved h tabId w) tabId = None)
   \<and> onMessage_getSuspendedTabData (Some tabId) (onRemoved h tabId w) = None
   \<and> (u \<noteq> [] \<and> \<not> isExtensionSuspendedPage h u \<longrightarrow>
        suspendedTabsCache (onUpdated h tabId (Some u) w) = (suspendedTabsCache w)(tabId := None)
        \<and> onMessage_getSuspendedTabData (Some tabId) (onUpdated h tabId (Some u) w) = None
        \<and> lastActivityMap (onUpdated h tabId (Some u) w) = lastActivityMap w)"
proof -
  have gone: "(m :: int \<rightharpoonup> tabRecord) i = None \<Longrightarrow> m(i := None) = m" for m i
    by (rule ext) simp
  show ?thesis
    by (auto simp: onRemoved_def onUpdated_def onMessage_getSuspendedTabData_def activity_of_def
        Let_def gone)
qed

theorem removal_deletes_record_witness:
  "lastActivityMap suspended_world 8 \<noteq> Some 0
   \<and> \<not> isExtensionSuspendedPage quiet_host ''https://example.com/''
   \<and> suspendedTabsCache suspended_world 8 = Some example_record
   \<and> suspendedTabsCache (onRemoved quiet_host 8 suspended_world) 8 = None
   \<and> lastActivityMap (onRemoved quiet_host 8 suspended_world) 8 = None
   \<and> onMessage_getSuspendedTabData (Some 8) (onRemoved quiet_host 8 suspended_world) = None
   \<and> suspendedTabsCache (onUpdated quiet_host 8 (Some ''https://example.com/'') suspended_world) 8 = None
   \<and> onMessage_getSuspendedTabData (Some 8)
        (onUpdated quiet_host 8 (Some ''https://example.com/'') suspended_world) = None"
proof -
  have a: "lastActivityMap suspended_world 8 \<noteq> Some 0"
    and r: "suspendedTabsCache suspended_world 8 = Some example_record"
    by (simp_all add: suspended_world_def)
  have p: "\<not> isExtensionSuspendedPage quiet_host ''https://example.com/''"
    by (simp add: isExtensionSuspendedPage_def starts_with_def runtime_getURL_def quiet_host_def)
  from removal_deletes_record [of quiet_host 8 suspended_world "''https://example.com/''"] a r p
  show ?thesis by simp
qed

text \<open>
  The claim C4 as it is worded, with the activity entry deleted in both cases, fails for
  the placeholder that navigates away: the record goes, the activity entry stays.
\<close>

theorem navigating_away_keeps_activity_entry:
  "suspendedTabsCache suspended_world 8 = Some example_record
   \<and> \<not> isExtensionSuspendedPage quiet_host ''https://example.com/''
   \<and> suspendedTabsCache (onUpdated quiet_host 8 (Some ''https://example.com/'') suspended_world) 8 = None
   \<and> lastActivityMap (onUpdated quiet_host 8 (Some ''https://example.com/'') suspended_world) 8
       = Some 1950000"
  by (simp add: onUpdated_def suspended_world_def example_defs isExtensionSuspendedPage_def
      starts_with_def runtime_getURL_def persistSuspendedCache_def record_call_def)

lemma find_tab_id: "find_tab w i = Some t \<Longrightarrow> tab_id t = i"
  by (auto simp: find_tab_def find_Some_iff)

lemma le_foldr_max: "(x :: int) \<in> set xs \<Longrightarrow> x \<le> foldr max xs 0"
  by (induction xs) auto

lemma find_tab_below_fresh: "find_tab w i = Some t \<Longrightarrow> i < fresh_tab_id w"
proof -
  assume "find_tab w i = Some t"
  then have "i \<in> set (map tab_id (tabs w))"
    by (auto simp: find_tab_def find_Some_iff)
  from le_foldr_max [OF this] show ?thesis
    by (simp add: fresh_tab_id_def)
qed

lemma find_map_same_id:
  "(\<And>t. tab_id (g t) = tab_id t) \<Longrightarrow>
   find (\<lambda>t. tab_id t = i) (map g xs) = map_option g (find (\<lambda>t. tab_id t = i) xs)"
  by (induction xs) auto

lemma find_tab_change_tab:
  "(\<And>t. tab_id (f t) = tab_id t) \<Longrightarrow>
   find_tab (change_tab j f w) i = map_option (\<lambda>t. if tab_id t = j then f t else t) (find_tab w i)"
  by (simp add: find_tab_def change_tab_def find_map_same_id)

lemma find_tab_append:
  "find_tab (w\<lparr>tabs := tabs w @ [t]\<rparr>) i =
     (case find_tab w i of Some x \<Rightarrow> Some x | None \<Rightarrow> if tab_id t = i then Some t else None)"
proof -
  have "find P (xs @ [t]) = (case find P xs of Some x \<Rightarrow> Some x | None \<Rightarrow> if P t then Some t else None)"
    for P and xs :: "tab list"
    by (induction xs) auto
  then show ?thesis by (simp add: find_tab_def)
qed

lemma find_filter_other:
  "i \<noteq> j \<Longrightarrow> find (\<lambda>t. tab_id t = i) (filter (\<lambda>t. tab_id t \<noteq> j) xs) = find (\<lambda>t. tab_id t = i) xs"
  by (induction xs) auto

lemma has_tab_move [simp]:
  "(\<exists>y. find_tab (snd (chrome_tabs_move h i idx w)) j = Some y) = (\<exists>y. find_tab w j = Some y)"
  by (auto simp: chrome_tabs_move_def find_tab_change_tab split: option.splits)

lemma has_tab_group [simp]:
  "(\<exists>y. find_tab (snd (chrome_tabs_group h i g w)) j = Some y) = (\<exists>y. find_tab w j = Some y)"
  by (auto simp: chrome_tabs_group_def find_tab_change_tab split: option.splits)

lemma fresh_tab_id_log [simp]: "fresh_tab_id (record_call c w) = fresh_tab_id w"
  by (simp add: fresh_tab_id_def record_call_def)

lemma chrome_tabs_create_Inr:
  assumes "chrome_tabs_create h win idx act pin u w = (Inr newTab, w2)"
  shows "tab_id newTab = fresh_tab_id w"
    and "w2 = record_call (TabsCreate win idx) (w\<lparr>tabs := tabs w @ [newTab]\<rparr>)"
  using assms by (auto simp: chrome_tabs_create_def Let_def split: option.splits)

lemma find_tab_remove_other: "i \<noteq> j \<Longrightarrow> find_tab (snd (chrome_tabs_remove h j w)) i = find_tab w i"
  by (simp add: chrome_tabs_remove_def find_tab_def record_call_def find_filter_other split: option.splits)

lemma cache_tab_ops [simp]:
  "suspendedTabsCache (snd (chrome_tabs_move h i idx w)) = suspendedTabsCache w"
  "suspendedTabsCache (snd (chrome_tabs_group h i g w)) = suspendedTabsCache w"
  "suspendedTabsCache (snd (chrome_tabs_remove h i w)) = suspendedTabsCache w"
  by (simp_all add: chrome_tabs_move_def chrome_tabs_group_def chrome_tabs_remove_def record_call_def change_tab_def
      split: option.splits)

lemma not_success [simp]:
  "\<not> truthy_field (resp_error m) ''success''" "\<not> truthy_field resp_fail ''success''"
  "\<not> truthy_field resp_already ''success''"
  by (simp_all add: truthy_field_def resp_error_def resp_fail_def resp_already_def)

lemma navigate_fallback_response:
  "fst (navigate_fallback h i base w) = resp_navigated
   \<or> (\<exists>m. fst (navigate_fallback h i base w) = resp_error m)"
  by (auto simp: navigate_fallback_def Let_def split: prod.splits option.splits)

lemma suspendTab_success_cases:
  assumes "suspendTab h tabId r w = (resp, w1)" and "truthy_field resp ''success''"
  obtains (replaced) t newTab w2 where "find_tab w tabId = Some t"
      and "chrome_tabs_create h (windowId t) (index t + 1) (active t) (pinned t)
             (getSuspendedUrl h (url t) (title t)) (record_call (TabsGet tabId) w) = (Inr newTab, w2)"
      and "resp = resp_replaced"
      and "w1 = replace_rest h t (baseRecord (record_call (TabsGet tabId) w) t r) newTab w2"
    | (navigated) t m w2 where "find_tab w tabId = Some t"
      and "chrome_tabs_create h (windowId t) (index t + 1) (active t) (pinned t)
             (getSuspendedUrl h (url t) (title t)) (record_call (TabsGet tabId) w) = (Inl m, w2)"
      and "navigate_fallback h tabId (baseRecord (record_call (TabsGet tabId) w) t r) w2 = (resp_navigated, w1)"
      and "resp = resp_navigated"
proof -
  let ?w0 = "record_call (TabsGet tabId) w"
  have "snd (chrome_tabs_get h tabId w) = ?w0"
    by (simp add: chrome_tabs_get_def split: option.splits)
  then obtain g where g: "chrome_tabs_get h tabId w = (g, ?w0)"
    by (cases "chrome_tabs_get h tabId w") auto
  show thesis
  proof (cases g)
    case (Inl m)
    with g assms show thesis by (auto simp: suspendTab_def)
  next
    case (Inr t)
    with g have t: "find_tab w tabId = Some t"
      by (simp add: chrome_tabs_get_def split: option.splits)
    let ?base = "baseRecord ?w0 t r"
    have base: "rec_url ?base = url t" "rec_title ?base = title t"
      by (simp_all add: baseRecord_def)
    obtain c w2 where c: "chrome_tabs_create h (windowId t) (index t + 1) (active t) (pinned t)
             (getSuspendedUrl h (url t) (title t)) ?w0 = (c, w2)"
      by (cases "chrome_tabs_create h (windowId t) (index t + 1) (active t) (pinned t)
             (getSuspendedUrl h (url t) (title t)) ?w0")
    from assms g Inr have go: "eligibleForSuspend h (currentSettings ?w0) t r = Some True"
      "\<not> isExtensionSuspendedPage h (url t)" "suspendedTabsCache ?w0 tabId = None"
      by (auto simp: suspendTab_def split: option.splits bool.splits if_splits)
    show thesis
    proof (cases c)
      case (Inr newTab)
      with assms(1) g \<open>g = Inr t\<close> go c base have "resp = resp_replaced"
        and "w1 = replace_rest h t ?base newTab w2"
        by (simp_all add: suspendTab_def Let_def)
      with t c Inr show thesis by (intro replaced) simp_all
    next
      case (Inl m)
      with assms(1) g \<open>g = Inr t\<close> go c base
      have nf: "navigate_fallback h tabId ?base w2 = (resp, w1)"
        by (simp add: suspendTab_def Let_def)
      with navigate_fallback_response [of h tabId ?base w2] assms(2)
      have "resp = resp_navigated" by auto
      with t c Inl nf show thesis by (intro navigated) simp_all
    qed
  qed
qed

lemma unsuspend_restores:
  assumes "suspendedTabsCache w i = Some rec" and "find_tab w i \<noteq> None"
    and "fails h (TabsUpdate i (rec_url rec)) = None"
  shows "fst (unsuspendTab h i w)
           = resp_restored (if rec_strategy rec = Some Replace then ''replace'' else ''navigate'')"
    and "map_option url (find_tab (snd (unsuspendTab h i w)) i) = Some (rec_url rec)"
    and "suspendedTabsCache (snd (unsuspendTab h i w)) i = None"
proof -
  let ?w2 = "persistSuspendedCache h (w\<lparr>suspendedTabsCache := (suspendedTabsCache w)(i := None)\<rparr>)"
  from assms(2) obtain t where t: "find_tab w i = Some t" by auto
  with assms(3) have ok: "tab_call_error h (TabsUpdate i (rec_url rec)) i w = None"
    by (simp add: tab_call_error_def)
  have up: "chrome_tabs_update h i (rec_url rec) act pin ?w2
              = (None, record_call (TabsUpdate i (rec_url rec))
                   (change_tab i
                      (\<lambda>t. t\<lparr>url := rec_url rec,
                              active := (case act of None \<Rightarrow> active t | Some a \<Rightarrow> a),
                              pinned := (case pin of None \<Rightarrow> pinned t | Some p \<Rightarrow> p)\<rparr>)
                      ?w2))" for act pin
    by (simp add: chrome_tabs_update_def ok)
  have found: "find_tab (change_tab i f ?w2) i = Some (f t)" if "\<And>x. tab_id (f x) = tab_id x" for f
    using find_tab_id [OF t] by (simp add: find_tab_change_tab [OF that] t)
  from assms(1) show "fst (unsuspendTab h i w)
           = resp_restored (if rec_strategy rec = Some Replace then ''replace'' else ''navigate'')"
    by (simp add: unsuspendTab_def Let_def up)
  from assms(1) show "map_option url (find_tab (snd (unsuspendTab h i w)) i) = Some (rec_url rec)"
    by (simp add: unsuspendTab_def Let_def up found)
  from assms(1) show "suspendedTabsCache (snd (unsuspendTab h i w)) i = None"
    by (simp add: unsuspendTab_def Let_def up change_tab_def record_call_def)
qed

lemma replace_rest_result:
  assumes "find_tab w2 (tab_id newTab) \<noteq> None" and "tab_id newTab \<noteq> tab_id t"
  shows "find_tab (replace_rest h t base newTab w2) (tab_id newTab) \<noteq> None"
    and "suspendedTabsCache (replace_rest h t base newTab w2) (tab_id newTab)
           = Some (base\<lparr>rec_strategy := Some Replace,
                        rec_placeholderTabId := Some (tab_id newTab)\<rparr>)"
  using assms
  by (simp_all add: replace_rest_def Let_def find_tab_remove_other)

lemma navigate_fallback_result:
  assumes "navigate_fallback h i base w2 = (resp_navigated, w1)"
  shows "find_tab w1 i \<noteq> None"
    and "suspendedTabsCache w1 i = Some (base\<lparr>rec_strategy := Some Navigate\<rparr>)"
proof -
  let ?w = "persistSuspendedCache h
              (w2\<lparr>suspendedTabsCache := (suspendedTabsCache w2)(i \<mapsto> base\<lparr>rec_strategy := Some Navigate\<rparr>)\<rparr>)"
  let ?u = "getSuspendedUrl h (rec_url base) (rec_title base)"
  have ne: "resp_error m \<noteq> resp_navigated" for m
    by (simp add: resp_error_def resp_navigated_def)
  from assms have up: "chrome_tabs_update h i ?u None None ?w = (None, w1)"
    by (auto simp: navigate_fallback_def Let_def ne split: prod.splits option.splits)
  then have ok: "tab_call_error h (TabsUpdate i ?u) i ?w = None"
    by (auto simp: chrome_tabs_update_def split: option.splits)
  then obtain t where t: "find_tab w2 i = Some t"
    by (auto simp: tab_call_error_def split: option.splits)
  from up ok have w1: "w1 = record_call (TabsUpdate i ?u) (change_tab i (\<lambda>t. t\<lparr>url := ?u\<rparr>) ?w)"
    by (simp add: chrome_tabs_update_def)
  show "find_tab w1 i \<noteq> None"
    by (simp add: w1 find_tab_change_tab t)
  show "suspendedTabsCache w1 i = Some (base\<lparr>rec_strategy := Some Navigate\<rparr>)"
    by (simp add: w1 change_tab_def record_call_def)
qed

text \<open>
  C3. If \<open>suspendTab\<close> answers with success for a tab that showed the address \<open>url t\<close>,
  and the browser does not refuse the \<open>chrome.tabs.update\<close> call of the \<open>unsuspendTab\<close>
  that follows, then \<open>unsuspendTab\<close> on the resulting tab answers with success, that tab
  shows \<open>url t\<close> again, and its record is gone.
\<close>

theorem suspend_unsuspend_round_trip:
  assumes "suspendTab h tabId r w = (resp, w1)"
    and "truthy_field resp ''success''"
    and "find_tab w tabId = Some t"
    and "fails h' (TabsUpdate (resulting_tab resp w tabId) (url t)) = None"
  shows "fst (unsuspendTab h' (resulting_tab resp w tabId) w1)
           = resp_restored (if truthy_field resp ''replaced'' then ''replace'' else ''navigate'')
         \<and> map_option url (find_tab (snd (unsuspendTab h' (resulting_tab resp w tabId) w1))
                             (resulting_tab resp w tabId)) = Some (url t)
         \<and> suspendedTabsCache (snd (unsuspendTab h' (resulting_tab resp w tabId) w1))
             (resulting_tab resp w tabId) = None"
  using assms(1,2)
proof (cases rule: suspendTab_success_cases)
  case (replaced t' newTab w2)
  let ?w0 = "record_call (TabsGet tabId) w"
  let ?n = "fresh_tab_id w"
  from replaced(1) assms(3) have tt: "t' = t" by simp
  note replaced = replaced [unfolded tt]
  have tr: "truthy_field resp ''replaced''"
    by (simp add: replaced(3) resp_replaced_def truthy_field_def)
  then have rid: "resulting_tab resp w tabId = ?n"
    by (simp add: resulting_tab_def)
  note cr = chrome_tabs_create_Inr [OF replaced(2)]
  from cr(1) have n: "tab_id newTab = ?n"
    by simp
  have "find_tab w2 ?n = find_tab (?w0\<lparr>tabs := tabs ?w0 @ [newTab]\<rparr>) ?n"
    by (subst cr(2)) simp
  also have "\<dots> = (case find_tab ?w0 ?n of Some x \<Rightarrow> Some x
                     | None \<Rightarrow> if tab_id newTab = ?n then Some newTab else None)"
    by (rule find_tab_append)
  finally have w2: "find_tab w2 ?n = (case find_tab w ?n of Some x \<Rightarrow> Some x | None \<Rightarrow> Some newTab)"
    by (simp add: n)
  have fresh: "find_tab w ?n = None"
    using find_tab_below_fresh [of w ?n] by (cases "find_tab w ?n") auto
  from find_tab_below_fresh [OF assms(3)] find_tab_id [OF assms(3)]
  have other: "tab_id newTab \<noteq> tab_id t"
    by (simp add: n)
  have has: "find_tab w2 (tab_id newTab) \<noteq> None"
    by (simp add: n w2 fresh)
  note rr = replace_rest_result [OF has other, of h "baseRecord ?w0 t r"]
  let ?rec = "(baseRecord ?w0 t r)\<lparr>rec_strategy := Some Replace,
                 rec_placeholderTabId := Some (tab_id newTab)\<rparr>"
  have rec: "rec_url ?rec = url t" "rec_strategy ?rec = Some Replace"
    by (simp_all add: baseRecord_def)
  from assms(4) have nofail: "fails h' (TabsUpdate ?n (rec_url ?rec)) = None"
    by (simp add: rid rec)
  from rr [unfolded n] have "find_tab w1 ?n \<noteq> None" and "suspendedTabsCache w1 ?n = Some ?rec"
    by (simp_all add: replaced(4) n)
  from unsuspend_restores [OF this(2) this(1) nofail] show ?thesis
    by (simp only: rid tr rec if_True simp_thms)
next
  case (navigated t' m w2)
  let ?w0 = "record_call (TabsGet tabId) w"
  from navigated(1) assms(3) have tt: "t' = t" by simp
  note navigated = navigated [unfolded tt]
  have tr: "\<not> truthy_field resp ''replaced''"
    by (simp add: navigated(4) resp_navigated_def truthy_field_def)
  then have rid: "resulting_tab resp w tabId = tabId"
    by (simp add: resulting_tab_def)
  note nr = navigate_fallback_result [OF navigated(3)]
  let ?rec = "(baseRecord ?w0 t r)\<lparr>rec_strategy := Some Navigate\<rparr>"
  have rec: "rec_url ?rec = url t" "rec_strategy ?rec = Some Navigate"
    by (simp_all add: baseRecord_def)
  from assms(4) have nofail: "fails h' (TabsUpdate tabId (rec_url ?rec)) = None"
    by (simp add: rid rec)
  from unsuspend_restores [OF nr(2) nr(1) nofail] show ?thesis
    by (simp add: rid tr rec)
qed

lemma replaced_example: "fst (suspendTab quiet_host 7 Manual example_world) = resp_replaced"
  by (simp add: core_defs example_defs)

theorem suspend_unsuspend_round_trip_witness:
  "suspendTab quiet_host 7 Manual example_world
     = (resp_replaced, snd (suspendTab quiet_host 7 Manual example_world))
   \<and> truthy_field resp_replaced ''success''
   \<and> find_tab example_world 7 = Some example_tab
   \<and> resulting_tab resp_replaced example_world 7 = 8
   \<and> fails quiet_host (TabsUpdate 8 (url example_tab)) = None
   \<and> fst (unsuspendTab quiet_host 8 (snd (suspendTab quiet_host 7 Manual example_world)))
       = resp_restored ''replace''
   \<and> map_option url
        (find_tab (snd (unsuspendTab quiet_host 8 (snd (suspendTab quiet_host 7 Manual example_world)))) 8)
       = Some ''https://example.com/''"
proof -
  let ?w1 = "snd (suspendTab quiet_host 7 Manual example_world)"
  have s: "suspendTab quiet_host 7 Manual example_world = (resp_replaced, ?w1)"
    using replaced_example by (cases "suspendTab quiet_host 7 Manual example_world") simp
  have ok: "truthy_field resp_replaced ''success''" "truthy_field resp_replaced ''replaced''"
    by (simp_all add: truthy_field_def resp_replaced_def)
  have t: "find_tab example_world 7 = Some example_tab"
    by (simp add: find_tab_def example_defs)
  have rid: "resulting_tab resp_replaced example_world 7 = 8"
    by (simp add: resulting_tab_def ok fresh_tab_id_def example_defs)
  have nofail: "fails quiet_host (TabsUpdate 8 (url example_tab)) = None"
    by (simp add: quiet_host_def)
  have u: "url example_tab = ''https://example.com/''"
    by (simp add: example_tab_def)
  from suspend_unsuspend_round_trip [OF s ok(1) t, of quiet_host] s ok t rid nofail u
  show ?thesis by simp
qed

text \<open>
  The claim C3 without the proviso fails: the tab is suspended by replacement, and the
  update that should restore the placeholder throws.
\<close>

theorem round_trip_counterexample:
  "fst (suspendTab update_fails_host 7 Manual example_world) = resp_replaced
   \<and> truthy_field resp_replaced ''success''
   \<and> resulting_tab resp_replaced example_world 7 = 8
   \<and> fst (unsuspendTab update_fails_host 8 (snd (suspendTab update_fails_host 7 Manual example_world)))
       = resp_error ''Tabs cannot be edited right now''
   \<and> \<not> truthy_field (resp_error ''Tabs cannot be edited right now'') ''success''"
  by (simp add: core_defs example_defs update_fails_host_def resulting_tab_def truthy_field_def
      resp_replaced_def resp_error_def)

text \<open>
  C1. A second \<open>suspendTab\<close> on a tab that was suspended does not answer
  \<open>already: true\<close>. After a suspension in place the tab shows the suspended page, and
  \<open>eligibleForSuspend\<close>, which is asked first, rejects that page: the answer is
  \<open>{success: false}\<close>, and the two tests behind it that would answer \<open>already\<close> are
  never reached. After a suspension by replacement the original tab is closed, so the
  answer is an error, and for the placeholder it is \<open>{success: false}\<close> again. In the
  first case the registry and the tabs are left as they were.
\<close>

theorem second_suspend_not_already:
  "fst (suspendTab create_fails_host 7 Manual example_world) = resp_navigated
   \<and> suspendedTabsCache (snd (suspendTab create_fails_host 7 Manual example_world)) 7 \<noteq> None
   \<and> fst (suspendTab create_fails_host 7 Manual
             (snd (suspendTab create_fails_host 7 Manual example_world))) = resp_fail
   \<and> field resp_fail ''already'' = None
   \<and> suspendedTabsCache (snd (suspendTab create_fails_host 7 Manual
             (snd (suspendTab create_fails_host 7 Manual example_world))))
       = suspendedTabsCache (snd (suspendTab create_fails_host 7 Manual example_world))
   \<and> tabs (snd (suspendTab create_fails_host 7 Manual
             (snd (suspendTab create_fails_host 7 Manual example_world))))
       = tabs (snd (suspendTab create_fails_host 7 Manual example_world))
   \<and> fst (suspendTab quiet_host 7 Manual example_world) = resp_replaced
   \<and> fst (suspendTab quiet_host 7 Manual (snd (suspendTab quiet_host 7 Manual example_world)))
       = resp_error no_tab
   \<and> fst (suspendTab quiet_host 8 Manual (snd (suspendTab quiet_host 7 Manual example_world)))
       = resp_fail"
  by (simp add: core_defs example_defs create_fails_host_def field_def resp_fail_def)

text \<open>
  C2. A tab that the policy rejects, here a pinned tab under \<open>ignorePinned\<close>, gets the
  answer \<open>{success: false}\<close> from the \<open>suspendCurrentTab\<close> message: there is no \<open>error\<close>
  in it, and no \<open>ignored\<close> either, although the popup looks for \<open>response.ignored\<close>.
\<close>

lemma suspendTab_ineligible:
  assumes "chrome_tabs_get h tabId w = (Inr t, w1)"
    and "eligibleForSuspend h (currentSettings w1) t r = Some False"
  shows "suspendTab h tabId r w = (resp_fail, w1)"
  using assms by (simp add: suspendTab_def)

theorem ineligible_response_not_ignored:
  "eligibleForSuspend quiet_host (currentSettings pinned_world)
     (example_tab\<lparr>pinned := True, active := True\<rparr>) Manual = Some False
   \<and> fst (onMessage_suspendTab quiet_host None None pinned_world) = Some resp_fail
   \<and> field resp_fail ''ignored'' = None
   \<and> \<not> truthy_field resp_fail ''ignored''
   \<and> field resp_fail ''error'' = None"
  by (simp add: core_defs example_defs pinned_world_def onMessage_suspendTab_def default_tab_def
      chrome_tabs_query_active_def field_def truthy_field_def resp_fail_def)

subsection \<open>Whitelist matching\<close>

lemmas whitelist_defs =
  isWhitelisted_def whitelistEntries_def DEFAULT_SETTINGS_def trim_def is_space_def LF_def
  CR_def pattern_source_def regexp_test_def backslash_def escape_class_def metachar_def
  line_terminator_def parse_atom_def parse_quant_def

lemma whitelist_star_alone:
  "isWhitelisted rx (s\<lparr>urlWhitelist := ''*''\<rparr>) u = Some True"
  by (simp add: isWhitelisted_def whitelistEntries_def trim_def is_space_def LF_def)

lemma whitelist_examples:
  "isWhitelisted regexp_test (DEFAULT_SETTINGS\<lparr>urlWhitelist := ''*.example.com/*''\<rparr>)
     ''https://mail.example.com/inbox'' = Some True"
  "isWhitelisted regexp_test (DEFAULT_SETTINGS\<lparr>urlWhitelist := ''*.example.com/*''\<rparr>)
     ''https://example.org'' = Some False"
  by (simp_all add: whitelist_defs)

lemma whitelist_case_sensitive:
  "isWhitelisted regexp_test (DEFAULT_SETTINGS\<lparr>urlWhitelist := ''*.example.com/*''\<rparr>)
     ''https://mail.EXAMPLE.com/inbox'' = Some False"
  by (simp add: whitelist_defs)

text \<open>
  C7. The characters of a pattern other than \<open>*\<close> are meant to stand for themselves
  (the script's comment: escape regex special except \<open>*\<close>), but the escaping expression
  only matches a special character that is followed by \<open>\]\<close>, so the pattern reaches the
  engine as it is written. The source built from \<open>*.example.com/*\<close> is
  \<open>^.*.example.com/.*$\<close>, in which the dots match any character: the address
  \<open>https://myexample-com/x\<close> is whitelisted although it does not contain \<open>.example.com/\<close>.
  And in \<open>https://x.com/search?q=*\<close> the \<open>?\<close> makes the \<open>h\<close> optional, so the very
  address \<open>https://x.com/search?q=1\<close> is not whitelisted, not even by the pattern that
  spells it out.
\<close>

theorem whitelist_pattern_not_escaped:
  "pattern_source ''*.example.com/*'' = ''^.*.example.com/.*$''
   \<and> isWhitelisted regexp_test (DEFAULT_SETTINGS\<lparr>urlWhitelist := ''*.example.com/*''\<rparr>)
         ''https://myexample-com/x'' = Some True
   \<and> \<not> glob_match ''*.example.com/*'' ''https://myexample-com/x''
   \<and> isWhitelisted regexp_test (DEFAULT_SETTINGS\<lparr>urlWhitelist := ''https://x.com/search?q=*''\<rparr>)
         ''https://x.com/search?q=1'' = Some False
   \<and> glob_match ''https://x.com/search?q=*'' ''https://x.com/search?q=1''
   \<and> isWhitelisted regexp_test (DEFAULT_SETTINGS\<lparr>urlWhitelist := ''https://x.com/search?q=1''\<rparr>)
         ''https://x.com/search?q=1'' = Some False"
  by (simp add: whitelist_defs)

subsection \<open>A scan after the timeout was set to \<open>-5\<close>\<close>

text \<open>
  What the scan started by that \<open>saveSettings\<close> does with the threshold of \<open>-300000\<close>:
  the tab, idle for 1000 seconds, is due, and is replaced by a placeholder.
\<close>

lemma scan_with_negative_threshold:
  "find_tab (snd (run quiet_host [Save partial_update, Resume] (idle, example_world))) 7 = None
   \<and> suspendedTabsCache (snd (run quiet_host [Save partial_update, Resume] (idle, example_world))) 8
       \<noteq> None
   \<and> alarm (snd (run quiet_host [Save partial_update, Resume] (idle, example_world)))
       = Some 2300000"
  by (simp add: saveSettings_def configureAlarm_def runInactivityScan.simps scan_resume_def
      scan_finally_def merge_settings_def or_else_def stored_of_def partial_update_def
      scan_tab_def scan_after_query_def chrome_alarms_clear_def chrome_alarms_create_def
      chrome_tabs_query_def thresholdMs_of_def activity_of_def min_delay_def next_wake_def
      core_defs whitelist_defs example_defs)

end
